theory Spec2Isabelle
  imports Main
begin

section \<open>JavaScript values\<close>

text \<open>
  The socket handlers of the voice server work on the result of \<^verbatim>\<open>JSON.parse\<close>.
  A value is a JSON value or \<^verbatim>\<open>undefined\<close> (the result of reading a missing property).
  Numbers are the integral JSON numbers; only their truthiness is ever inspected.
  An object is the list of its own properties, as parsed (keys are distinct).
\<close>

datatype jv =
    JUndefined
  | JNull
  | JBool bool
  | JNum int
  | JStr string
  | JArr "jv list"
  | JObj "(string \<times> jv) list"

text \<open>The result of \<^verbatim>\<open>JSON.parse(data.toString())\<close>: a value, or a thrown SyntaxError.\<close>

datatype frame = Unparsable | Json jv

text \<open>JavaScript truthiness, as tested by \<^verbatim>\<open>if (x)\<close>, \<^verbatim>\<open>x && y\<close> and \<^verbatim>\<open>x || y\<close>.\<close>

fun truthy :: "jv \<Rightarrow> bool" where
  "truthy JUndefined = False"
| "truthy JNull = False"
| "truthy (JBool b) = b"
| "truthy (JNum n) = (n \<noteq> 0)"
| "truthy (JStr s) = (s \<noteq> [])"
| "truthy (JArr xs) = True"
| "truthy (JObj kvs) = True"

text \<open>\<^verbatim>\<open>a || b\<close>\<close>

definition js_or :: "jv \<Rightarrow> jv \<Rightarrow> jv" where
  "js_or a b = (if truthy a then a else b)"

text \<open>
  Reading property \<open>k\<close> of a value that is neither \<^verbatim>\<open>undefined\<close> nor \<^verbatim>\<open>null\<close>.
  The handlers read only the keys of the two wire protocols, none of which is a
  property of a string, number, boolean or array.
\<close>

fun get_prop :: "jv \<Rightarrow> string \<Rightarrow> jv" where
  "get_prop (JObj kvs) k = (case map_of kvs k of Some v \<Rightarrow> v | None \<Rightarrow> JUndefined)"
| "get_prop v k = JUndefined"

definition nullish :: "jv \<Rightarrow> bool" where
  "nullish v = (v = JUndefined \<or> v = JNull)"

text \<open>\<^verbatim>\<open>v.k\<close>: a TypeError (\<open>None\<close>) when \<open>v\<close> is \<^verbatim>\<open>undefined\<close> or \<^verbatim>\<open>null\<close>.\<close>

definition dot_prop :: "jv \<Rightarrow> string \<Rightarrow> jv option" where
  "dot_prop v k = (if nullish v then None else Some (get_prop v k))"

text \<open>\<^verbatim>\<open>v?.k\<close>: \<^verbatim>\<open>undefined\<close> when \<open>v\<close> is \<^verbatim>\<open>undefined\<close> or \<^verbatim>\<open>null\<close>.\<close>

definition opt_prop :: "jv \<Rightarrow> string \<Rightarrow> jv" where
  "opt_prop v k = (if nullish v then JUndefined else get_prop v k)"

text \<open>
  Interpolating a value into a template literal (the \<^verbatim>\<open>log\<close> calls) converts it to a
  string. The conversion throws a TypeError for a parsed object that has an own property
  \<^verbatim>\<open>toString\<close> (it is not callable, and the inherited \<^verbatim>\<open>valueOf\<close> returns the object),
  and for an array one of whose elements does.
\<close>

fun to_string_throws :: "jv \<Rightarrow> bool" where
  "to_string_throws (JObj kvs) = (map_of kvs ''toString'' \<noteq> None)"
| "to_string_throws (JArr xs) = list_ex to_string_throws xs"
| "to_string_throws v = False"

text \<open>
  \<^verbatim>\<open>JSON.stringify\<close> of an object literal: properties whose value is \<^verbatim>\<open>undefined\<close>
  are left out. A message on the wire is identified with the JSON value it denotes.
\<close>

definition stringify_obj :: "(string \<times> jv) list \<Rightarrow> jv" where
  "stringify_obj kvs = JObj (filter (\<lambda>kv. snd kv \<noteq> JUndefined) kvs)"

section \<open>Sockets\<close>

text \<open>
  A WebSocket of the \<^verbatim>\<open>ws\<close> library, as far as the server observes it: its
  \<^verbatim>\<open>readyState\<close>, the messages written to it, and how often \<^verbatim>\<open>close()\<close> was called on it.
\<close>

datatype ready_state = CONNECTING | OPEN | CLOSING | CLOSED

record ws =
  readyState :: ready_state
  sent :: "jv list"
  close_calls :: nat

definition new_ws :: ws where
  "new_ws = \<lparr>readyState = CONNECTING, sent = [], close_calls = 0\<rparr>"

text \<open>
  \<^verbatim>\<open>socket.send(m)\<close>: throws while the socket is CONNECTING, writes the message while it is
  OPEN, and drops it silently once the socket is CLOSING or CLOSED.
\<close>

definition ws_send :: "ws \<Rightarrow> jv \<Rightarrow> ws option" where
  "ws_send w m =
     (case readyState w of
        CONNECTING \<Rightarrow> None
      | OPEN \<Rightarrow> Some (w\<lparr>sent := sent w @ [m]\<rparr>)
      | CLOSING \<Rightarrow> Some w
      | CLOSED \<Rightarrow> Some w)"

text \<open>
  \<^verbatim>\<open>socket.close()\<close>: starts the closing handshake of an open (or connecting) socket and
  does nothing on a socket that is already CLOSING or CLOSED.
\<close>

definition ws_close :: "ws \<Rightarrow> ws" where
  "ws_close w =
     (case readyState w of
        CONNECTING \<Rightarrow> w\<lparr>readyState := CLOSING, close_calls := Suc (close_calls w)\<rparr>
      | OPEN \<Rightarrow> w\<lparr>readyState := CLOSING, close_calls := Suc (close_calls w)\<rparr>
      | CLOSING \<Rightarrow> w\<lparr>close_calls := Suc (close_calls w)\<rparr>
      | CLOSED \<Rightarrow> w\<lparr>close_calls := Suc (close_calls w)\<rparr>)"

section \<open>The connection closure\<close>

text \<open>
  The source comes in four revisions: three in \<^verbatim>\<open>src/server.js\<close> (lines 1-274, 275-563
  and 564-930, here \<open>Rev1\<close>, \<open>Rev2\<close> and \<open>Rev4\<close>) and one in
  \<^verbatim>\<open>src/unnamed/part_000\<close> (here \<open>RevU\<close>).
\<close>

datatype revision = RevU | Rev1 | Rev2 | Rev4

text \<open>
  The process environment and the constants of the module. The prompt texts are not ASCII
  in the source and are taken as parameters. \<open>buffer_from_object v\<close> is what
  \<^verbatim>\<open>Buffer.from(v, "base64").toString("base64")\<close> yields for an array or object \<open>v\<close>
  (\<open>None\<close> when it throws).
\<close>

record env =
  ELEVENLABS_API_KEY :: "string option"
  ELEVENLABS_AGENT_ID :: "string option"
  SYSTEM_PROMPT :: string
  FIRST_MESSAGE :: string
  inline_prompt :: string
  buffer_from_object :: "jv \<Rightarrow> string option"

text \<open>Truthiness of an environment variable: set and not empty.\<close>

definition env_truthy :: "string option \<Rightarrow> bool" where
  "env_truthy v = (case v of None \<Rightarrow> False | Some x \<Rightarrow> x \<noteq> [])"

text \<open>
  The variables of one \<^verbatim>\<open>wss.on("connection", ...)\<close> closure. \<open>sockets\<close> holds every
  WebSocket to the AI backend that the closure has created, in creation order;
  \<open>elevenWs\<close> is the variable of that name: \<open>None\<close> for \<^verbatim>\<open>null\<close>, or the index of the
  socket it refers to. \<open>twilioWs\<close> is the accepted telephony socket.
  \<open>setup_pending\<close> says that \<^verbatim>\<open>setupElevenLabs\<close> is suspended at
  \<^verbatim>\<open>await getSignedUrl()\<close>; \<open>crashed\<close> that an exception escaped an event listener.
\<close>

record conn =
  streamSid :: jv
  callSid :: jv
  conversationId :: jv
  elevenWs :: "nat option"
  sockets :: "ws list"
  twilioWs :: ws
  setup_pending :: bool
  crashed :: bool

text \<open>\<^verbatim>\<open>elevenWs && elevenWs.readyState === WebSocket.OPEN\<close>\<close>

definition eleven_is_open :: "conn \<Rightarrow> bool" where
  "eleven_is_open s =
     (case elevenWs s of None \<Rightarrow> False | Some j \<Rightarrow> readyState (sockets s ! j) = OPEN)"

text \<open>\<^verbatim>\<open>streamSid && twilioWs.readyState === WebSocket.OPEN\<close>\<close>

definition twilio_ready :: "conn \<Rightarrow> bool" where
  "twilio_ready s = (truthy (streamSid s) \<and> readyState (twilioWs s) = OPEN)"

text \<open>\<^verbatim>\<open>elevenWs.send(m)\<close>; \<open>None\<close> when it throws (the variable is null, or the socket is CONNECTING).\<close>

definition eleven_send :: "conn \<Rightarrow> jv \<Rightarrow> conn option" where
  "eleven_send s m =
     (case elevenWs s of
        None \<Rightarrow> None
      | Some j \<Rightarrow>
          (case ws_send (sockets s ! j) m of
             None \<Rightarrow> None
           | Some w \<Rightarrow> Some (s\<lparr>sockets := (sockets s)[j := w]\<rparr>)))"

text \<open>\<^verbatim>\<open>elevenWs.close()\<close>, called only behind the guard \<open>eleven_is_open\<close>.\<close>

definition eleven_close :: "conn \<Rightarrow> conn" where
  "eleven_close s =
     (case elevenWs s of
        None \<Rightarrow> s
      | Some j \<Rightarrow> s\<lparr>sockets := (sockets s)[j := ws_close (sockets s ! j)]\<rparr>)"

text \<open>\<^verbatim>\<open>twilioWs.send(m)\<close>; \<open>None\<close> when it throws.\<close>

definition twilio_send :: "conn \<Rightarrow> jv \<Rightarrow> conn option" where
  "twilio_send s m =
     (case ws_send (twilioWs s) m of None \<Rightarrow> None | Some w \<Rightarrow> Some (s\<lparr>twilioWs := w\<rparr>))"

text \<open>A \<^verbatim>\<open>try { ... } catch\<close> block whose handler only logs: a throw leaves the state as it was.\<close>

definition caught :: "conn \<Rightarrow> conn option \<Rightarrow> conn" where
  "caught s r = (case r of None \<Rightarrow> s | Some s' \<Rightarrow> s')"

section \<open>Base64 re-encoding of caller audio\<close>

text \<open>
  Revisions 2 and 4 pass the caller's payload through
  \<^verbatim>\<open>Buffer.from(payload, "base64").toString("base64")\<close>. Node's decoder accepts the standard
  and the URL-safe alphabet, skips every other character, and stops at the first \<^verbatim>\<open>=\<close>;
  a trailing group of two or three characters yields one or two bytes, a single trailing
  character none. The encoder writes the standard alphabet with padding. Bytes and
  six-bit groups are natural numbers.
\<close>

definition b64_alphabet :: string where
  "b64_alphabet = ''ABCDEFGHIJKLMNOPQRSTUVWXYZabcdefghijklmnopqrstuvwxyz0123456789+/''"

fun index_of :: "char \<Rightarrow> string \<Rightarrow> nat option" where
  "index_of c [] = None"
| "index_of c (x # xs) = (if c = x then Some 0 else map_option Suc (index_of c xs))"

definition unbase64 :: "char \<Rightarrow> nat option" where
  "unbase64 c =
     (if c = CHR ''-'' then Some 62
      else if c = CHR ''_'' then Some 63
      else index_of c b64_alphabet)"

definition b64_char :: "nat \<Rightarrow> char" where
  "b64_char n = b64_alphabet ! (n mod 64)"

fun sextets_to_bytes :: "nat list \<Rightarrow> nat list" where
  "sextets_to_bytes (a # b # c # d # rest) =
     (a * 4 + b div 16) # ((b mod 16) * 16 + c div 4) # ((c mod 4) * 64 + d) # sextets_to_bytes rest"
| "sextets_to_bytes [a, b, c] = [a * 4 + b div 16, (b mod 16) * 16 + c div 4]"
| "sextets_to_bytes [a, b] = [a * 4 + b div 16]"
| "sextets_to_bytes [a] = []"
| "sextets_to_bytes [] = []"

definition base64_decode :: "string \<Rightarrow> nat list" where
  "base64_decode s =
     sextets_to_bytes (List.map_filter unbase64 (takeWhile (\<lambda>c. c \<noteq> CHR ''='') s))"

fun base64_encode :: "nat list \<Rightarrow> string" where
  "base64_encode (a # b # c # rest) =
     b64_char (a div 4) # b64_char ((a mod 4) * 16 + b div 16) #
     b64_char ((b mod 16) * 4 + c div 64) # b64_char (c mod 64) # base64_encode rest"
| "base64_encode [a, b] =
     [b64_char (a div 4), b64_char ((a mod 4) * 16 + b div 16), b64_char ((b mod 16) * 4), CHR ''='']"
| "base64_encode [a] = [b64_char (a div 4), b64_char ((a mod 4) * 16), CHR ''='', CHR ''='']"
| "base64_encode [] = []"

definition base64_reencode :: "string \<Rightarrow> string" where
  "base64_reencode s = base64_encode (base64_decode s)"

text \<open>
  \<^verbatim>\<open>Buffer.from(v, "base64").toString("base64")\<close> on any value: a TypeError for
  \<^verbatim>\<open>undefined\<close>, \<^verbatim>\<open>null\<close>, booleans and numbers.
\<close>

fun buffer_reencode :: "env \<Rightarrow> jv \<Rightarrow> string option" where
  "buffer_reencode e (JStr x) = Some (base64_reencode x)"
| "buffer_reencode e JUndefined = None"
| "buffer_reencode e JNull = None"
| "buffer_reencode e (JBool b) = None"
| "buffer_reencode e (JNum n) = None"
| "buffer_reencode e (JArr xs) = buffer_from_object e (JArr xs)"
| "buffer_reencode e (JObj kvs) = buffer_from_object e (JObj kvs)"

section \<open>Handlers of the telephony socket\<close>

text \<open>
  \<^verbatim>\<open>connectElevenLabs\<close> (Rev1: server.js 108-215; RevU: part_000 148-261): returns early
  without credentials, otherwise creates a WebSocket and stores it in \<open>elevenWs\<close>.
  RevU needs only the API key.
\<close>

definition create_eleven_socket :: "conn \<Rightarrow> conn" where
  "create_eleven_socket s =
     s\<lparr>sockets := sockets s @ [new_ws], elevenWs := Some (length (sockets s))\<rparr>"

definition connectElevenLabs_r1 :: "env \<Rightarrow> conn \<Rightarrow> conn" where
  "connectElevenLabs_r1 e s =
     (if \<not> env_truthy (ELEVENLABS_API_KEY e) then s
      else if \<not> env_truthy (ELEVENLABS_AGENT_ID e) then s
      else create_eleven_socket s)"

definition connectElevenLabs_u :: "env \<Rightarrow> conn \<Rightarrow> conn" where
  "connectElevenLabs_u e s =
     (if \<not> env_truthy (ELEVENLABS_API_KEY e) then s
      else create_eleven_socket s)"

text \<open>What \<^verbatim>\<open>case "start"\<close> does after logging: Rev1 and RevU connect, Rev2 and Rev4 do nothing.\<close>

fun connect_on_start :: "revision \<Rightarrow> env \<Rightarrow> conn \<Rightarrow> conn" where
  "connect_on_start RevU e s = connectElevenLabs_u e s"
| "connect_on_start Rev1 e s = connectElevenLabs_r1 e s"
| "connect_on_start Rev2 e s = s"
| "connect_on_start Rev4 e s = s"

text \<open>
  \<^verbatim>\<open>case "start"\<close>: \<^verbatim>\<open>msg.start.streamSid\<close> throws when \<^verbatim>\<open>msg.start\<close> is missing, before
  anything is assigned; the \<^verbatim>\<open>log\<close> line throws after both assignments when one of the
  identifiers cannot be converted to a string.
\<close>

definition on_start :: "revision \<Rightarrow> env \<Rightarrow> conn \<Rightarrow> jv \<Rightarrow> conn" where
  "on_start rv e s msg =
     (case dot_prop (get_prop msg ''start'') ''streamSid'' of
        None \<Rightarrow> s
      | Some sid \<Rightarrow>
          (let csid = get_prop (get_prop msg ''start'') ''callSid'';
               s' = s\<lparr>streamSid := sid, callSid := csid\<rparr>
           in if to_string_throws sid \<or> to_string_throws csid then s'
              else connect_on_start rv e s'))"

text \<open>\<^verbatim>\<open>case "media"\<close> of Rev1 and RevU: the payload is forwarded as it is.\<close>

definition on_media_r1 :: "conn \<Rightarrow> jv \<Rightarrow> conn" where
  "on_media_r1 s msg =
     (if eleven_is_open s then
        (case dot_prop (get_prop msg ''media'') ''payload'' of
           None \<Rightarrow> s
         | Some p \<Rightarrow> caught s (eleven_send s (stringify_obj [(''user_audio_chunk'', p)])))
      else s)"

text \<open>\<^verbatim>\<open>case "media"\<close> of Rev2 and Rev4: the payload is decoded and encoded again.\<close>

definition on_media_r2 :: "env \<Rightarrow> conn \<Rightarrow> jv \<Rightarrow> conn" where
  "on_media_r2 e s msg =
     (if eleven_is_open s then
        (case dot_prop (get_prop msg ''media'') ''payload'' of
           None \<Rightarrow> s
         | Some p \<Rightarrow>
             (case buffer_reencode e p of
                None \<Rightarrow> s
              | Some r \<Rightarrow>
                  caught s (eleven_send s (stringify_obj [(''user_audio_chunk'', JStr r)]))))
      else s)"

fun on_media :: "revision \<Rightarrow> env \<Rightarrow> conn \<Rightarrow> jv \<Rightarrow> conn" where
  "on_media RevU e s msg = on_media_r1 s msg"
| "on_media Rev1 e s msg = on_media_r1 s msg"
| "on_media Rev2 e s msg = on_media_r2 e s msg"
| "on_media Rev4 e s msg = on_media_r2 e s msg"

text \<open>\<^verbatim>\<open>case "stop"\<close> and the \<^verbatim>\<open>close\<close> listener of the telephony socket have the same body.\<close>

definition close_eleven_if_open :: "conn \<Rightarrow> conn" where
  "close_eleven_if_open s = (if eleven_is_open s then eleven_close s else s)"

text \<open>\<^verbatim>\<open>twilioWs.on("message", ...)\<close>: everything runs inside \<^verbatim>\<open>try\<close>.\<close>

definition twilio_message :: "revision \<Rightarrow> env \<Rightarrow> conn \<Rightarrow> frame \<Rightarrow> conn" where
  "twilio_message rv e s fr =
     (case fr of
        Unparsable \<Rightarrow> s
      | Json msg \<Rightarrow>
          (case dot_prop msg ''event'' of
             None \<Rightarrow> s
           | Some ev \<Rightarrow>
               if ev = JStr ''connected'' then s
               else if ev = JStr ''start'' then on_start rv e s msg
               else if ev = JStr ''media'' then on_media rv e s msg
               else if ev = JStr ''stop'' then close_eleven_if_open s
               else s))"

text \<open>\<^verbatim>\<open>twilioWs.on("close", ...)\<close>\<close>

definition twilio_on_close :: "conn \<Rightarrow> conn" where
  "twilio_on_close s = close_eleven_if_open s"

section \<open>Handlers of the AI socket\<close>

text \<open>An exception that escapes a listener which has no \<^verbatim>\<open>try\<close> ends the process.\<close>

definition uncaught :: "conn \<Rightarrow> conn option \<Rightarrow> conn" where
  "uncaught s r = (case r of None \<Rightarrow> s\<lparr>crashed := True\<rparr> | Some s' \<Rightarrow> s')"

definition init_msg_r1 :: jv where
  "init_msg_r1 = stringify_obj [(''type'', JStr ''conversation_initiation_client_data'')]"

definition init_msg_r2 :: "env \<Rightarrow> jv" where
  "init_msg_r2 e =
     stringify_obj
       [(''type'', JStr ''conversation_initiation_client_data''),
        (''conversation_config_override'',
           stringify_obj
             [(''agent'',
                 stringify_obj
                   [(''prompt'', stringify_obj [(''prompt'', JStr (inline_prompt e))]),
                    (''first_message'', JStr (FIRST_MESSAGE e))])])]"

definition init_msg_u :: "env \<Rightarrow> jv" where
  "init_msg_u e =
     stringify_obj
       [(''type'', JStr ''conversation_initiation_client_data''),
        (''conversation_config_override'',
           stringify_obj
             [(''agent'',
                 stringify_obj
                   [(''prompt'', stringify_obj [(''prompt'', JStr (SYSTEM_PROMPT e))]),
                    (''first_message'', JStr (FIRST_MESSAGE e)),
                    (''language'', JStr ''ru'')]),
              (''tts'', stringify_obj [(''voice_id'', JStr ''onwK4e9ZLuTAKqWW03F9'')])])]"

text \<open>\<^verbatim>\<open>elevenWs.on("open", ...)\<close>: sends through the variable \<open>elevenWs\<close>, outside any \<^verbatim>\<open>try\<close>.\<close>

fun eleven_on_open :: "revision \<Rightarrow> env \<Rightarrow> conn \<Rightarrow> conn" where
  "eleven_on_open RevU e s =
     (if \<not> env_truthy (ELEVENLABS_AGENT_ID e) then uncaught s (eleven_send s (init_msg_u e))
      else s)"
| "eleven_on_open Rev1 e s = uncaught s (eleven_send s init_msg_r1)"
| "eleven_on_open Rev2 e s = uncaught s (eleven_send s (init_msg_r2 e))"
| "eleven_on_open Rev4 e s = uncaught s (eleven_send s (init_msg_r2 e))"

text \<open>The two commands written to the telephony socket.\<close>

definition media_frame :: "jv \<Rightarrow> jv \<Rightarrow> jv" where
  "media_frame sid payload =
     stringify_obj
       [(''event'', JStr ''media''),
        (''streamSid'', sid),
        (''media'', stringify_obj [(''payload'', payload)])]"

definition clear_frame :: "jv \<Rightarrow> jv" where
  "clear_frame sid = stringify_obj [(''event'', JStr ''clear''), (''streamSid'', sid)]"

text \<open>
  The payload of an \<^verbatim>\<open>audio\<close> event.
  Rev1: \<^verbatim>\<open>msg.audio?.chunk || msg.audio_event?.audio_base_64 || msg.audio\<close>;
  the other revisions: \<^verbatim>\<open>msg.audio?.chunk || msg.audio_event?.audio_base_64\<close>.
\<close>

definition audio_payload_r1 :: "jv \<Rightarrow> jv" where
  "audio_payload_r1 msg =
     js_or (opt_prop (get_prop msg ''audio'') ''chunk'')
       (js_or (opt_prop (get_prop msg ''audio_event'') ''audio_base_64'')
          (get_prop msg ''audio''))"

definition audio_payload_r2 :: "jv \<Rightarrow> jv" where
  "audio_payload_r2 msg =
     js_or (opt_prop (get_prop msg ''audio'') ''chunk'')
       (opt_prop (get_prop msg ''audio_event'') ''audio_base_64'')"

text \<open>\<^verbatim>\<open>case "audio"\<close> of Rev1: the payload must be a string of positive length.\<close>

definition on_audio_r1 :: "conn \<Rightarrow> jv \<Rightarrow> conn" where
  "on_audio_r1 s msg =
     (if twilio_ready s then
        (case audio_payload_r1 msg of
           JStr p \<Rightarrow>
             if p \<noteq> [] then caught s (twilio_send s (media_frame (streamSid s) (JStr p)))
             else s
         | _ \<Rightarrow> s)
      else s)"

text \<open>\<^verbatim>\<open>case "audio"\<close> of the other revisions: the payload must be truthy.\<close>

definition on_audio_r2 :: "conn \<Rightarrow> jv \<Rightarrow> conn" where
  "on_audio_r2 s msg =
     (if twilio_ready s then
        (if truthy (audio_payload_r2 msg)
         then caught s (twilio_send s (media_frame (streamSid s) (audio_payload_r2 msg)))
         else s)
      else s)"

text \<open>\<^verbatim>\<open>case "interruption"\<close>\<close>

definition on_interruption :: "conn \<Rightarrow> conn" where
  "on_interruption s =
     (if twilio_ready s then caught s (twilio_send s (clear_frame (streamSid s))) else s)"

text \<open>\<^verbatim>\<open>case "ping"\<close> of Rev1 and RevU: a pong is always sent, with the event id when it is truthy.\<close>

definition on_ping_r1 :: "conn \<Rightarrow> jv \<Rightarrow> conn" where
  "on_ping_r1 s msg =
     (let eid = opt_prop (get_prop msg ''ping_event'') ''event_id'';
          pong = stringify_obj
                   ((''type'', JStr ''pong'') # (if truthy eid then [(''event_id'', eid)] else []))
      in caught s (eleven_send s pong))"

text \<open>\<^verbatim>\<open>case "ping"\<close> of Rev2 and Rev4: a pong is sent only when the event id is truthy.\<close>

definition on_ping_r2 :: "conn \<Rightarrow> jv \<Rightarrow> conn" where
  "on_ping_r2 s msg =
     (let eid = opt_prop (get_prop msg ''ping_event'') ''event_id''
      in if truthy eid
         then caught s (eleven_send s (stringify_obj [(''type'', JStr ''pong''), (''event_id'', eid)]))
         else s)"

text \<open>
  \<^verbatim>\<open>elevenWs.on("message", ...)\<close>, everything inside \<^verbatim>\<open>try\<close>. The cases that only log
  leave the state as it is. Rev1 logs \<^verbatim>\<open>msg.type\<close> before the switch.
\<close>

definition eleven_message_u :: "conn \<Rightarrow> frame \<Rightarrow> conn" where
  "eleven_message_u s fr =
     (case fr of
        Unparsable \<Rightarrow> s
      | Json msg \<Rightarrow>
          (case dot_prop msg ''type'' of
             None \<Rightarrow> s
           | Some t \<Rightarrow>
               if t = JStr ''conversation_initiation_metadata''
               then s\<lparr>conversationId := get_prop msg ''conversation_id''\<rparr>
               else if t = JStr ''audio'' then on_audio_r2 s msg
               else if t = JStr ''interruption'' then on_interruption s
               else if t = JStr ''ping'' then on_ping_r1 s msg
               else s))"

definition eleven_message_r1 :: "conn \<Rightarrow> frame \<Rightarrow> conn" where
  "eleven_message_r1 s fr =
     (case fr of
        Unparsable \<Rightarrow> s
      | Json msg \<Rightarrow>
          (case dot_prop msg ''type'' of
             None \<Rightarrow> s
           | Some t \<Rightarrow>
               if to_string_throws t then s
               else if t = JStr ''conversation_initiation_metadata''
               then s\<lparr>conversationId := get_prop msg ''conversation_id''\<rparr>
               else if t = JStr ''audio'' then on_audio_r1 s msg
               else if t = JStr ''interruption'' then on_interruption s
               else if t = JStr ''ping'' then on_ping_r1 s msg
               else s))"

definition eleven_message_r2 :: "conn \<Rightarrow> frame \<Rightarrow> conn" where
  "eleven_message_r2 s fr =
     (case fr of
        Unparsable \<Rightarrow> s
      | Json msg \<Rightarrow>
          (case dot_prop msg ''type'' of
             None \<Rightarrow> s
           | Some t \<Rightarrow>
               if t = JStr ''audio'' then on_audio_r2 s msg
               else if t = JStr ''interruption'' then on_interruption s
               else if t = JStr ''ping'' then on_ping_r2 s msg
               else s))"

fun eleven_message :: "revision \<Rightarrow> conn \<Rightarrow> frame \<Rightarrow> conn" where
  "eleven_message RevU s fr = eleven_message_u s fr"
| "eleven_message Rev1 s fr = eleven_message_r1 s fr"
| "eleven_message Rev2 s fr = eleven_message_r2 s fr"
| "eleven_message Rev4 s fr = eleven_message_r2 s fr"

text \<open>\<^verbatim>\<open>elevenWs.on("close", ...)\<close>: \<^verbatim>\<open>elevenWs = null\<close>\<close>

definition eleven_on_close :: "conn \<Rightarrow> conn" where
  "eleven_on_close s = s\<lparr>elevenWs := None\<rparr>"

section \<open>Accepting a connection and delivering events\<close>

text \<open>
  The state when the \<^verbatim>\<open>connection\<close> listener returns. Rev2 and Rev4 call
  \<^verbatim>\<open>setupElevenLabs()\<close> there: it returns at once without credentials and is otherwise
  suspended at \<^verbatim>\<open>await getSignedUrl()\<close>.
\<close>

fun setup_at_accept :: "revision \<Rightarrow> env \<Rightarrow> bool" where
  "setup_at_accept RevU e = False"
| "setup_at_accept Rev1 e = False"
| "setup_at_accept Rev2 e =
     (\<not> (\<not> env_truthy (ELEVENLABS_API_KEY e) \<or> \<not> env_truthy (ELEVENLABS_AGENT_ID e)))"
| "setup_at_accept Rev4 e =
     (\<not> (\<not> env_truthy (ELEVENLABS_API_KEY e) \<or> \<not> env_truthy (ELEVENLABS_AGENT_ID e)))"

definition accept :: "revision \<Rightarrow> env \<Rightarrow> conn" where
  "accept rv e =
     \<lparr>streamSid = JNull, callSid = JNull, conversationId = JNull, elevenWs = None,
      sockets = [],
      twilioWs = \<lparr>readyState = OPEN, sent = [], close_calls = 0\<rparr>,
      setup_pending = setup_at_accept rv e,
      crashed = False\<rparr>"

text \<open>
  What the event loop delivers to the closure. \<open>SignedUrlSettled ok\<close> resumes
  \<^verbatim>\<open>setupElevenLabs\<close>: \<open>ok\<close> says that \<^verbatim>\<open>getSignedUrl()\<close> returned and
  \<^verbatim>\<open>new WebSocket(signedUrl)\<close> was constructed; otherwise one of them threw into the
  \<^verbatim>\<open>catch\<close> of the setup. The events of the AI side name the socket they belong to.
  \<open>TwilioClosing\<close> and \<open>ElevenClosing\<close> are the arrival of the peer's close frame: the
  library moves the open socket to CLOSING and runs no listener; the \<^verbatim>\<open>close\<close> event
  follows later.
\<close>

datatype event =
    TwilioMessage frame
  | TwilioClosing
  | TwilioClose
  | TwilioError
  | SignedUrlSettled bool
  | ElevenOpen nat
  | ElevenMessage nat frame
  | ElevenClosing nat
  | ElevenClose nat
  | ElevenError nat

definition set_eleven_state :: "conn \<Rightarrow> nat \<Rightarrow> ready_state \<Rightarrow> conn" where
  "set_eleven_state s i st = s\<lparr>sockets := (sockets s)[i := (sockets s ! i)\<lparr>readyState := st\<rparr>]\<rparr>"

text \<open>
  One event. The library emits \<^verbatim>\<open>open\<close> only on a connecting socket, \<^verbatim>\<open>message\<close> only on
  a socket that is open or closing, and \<^verbatim>\<open>close\<close> once, with the socket CLOSED; an event
  that cannot occur in the current state is ignored. The \<^verbatim>\<open>error\<close> listeners only log.
\<close>

definition step :: "revision \<Rightarrow> env \<Rightarrow> conn \<Rightarrow> event \<Rightarrow> conn" where
  "step rv e s ev =
     (if crashed s then s
      else
        (case ev of
           TwilioMessage fr \<Rightarrow>
             if readyState (twilioWs s) = OPEN then twilio_message rv e s fr else s
         | TwilioClosing \<Rightarrow>
             if readyState (twilioWs s) = OPEN
             then s\<lparr>twilioWs := (twilioWs s)\<lparr>readyState := CLOSING\<rparr>\<rparr>
             else s
         | TwilioClose \<Rightarrow>
             if readyState (twilioWs s) \<noteq> CLOSED
             then twilio_on_close (s\<lparr>twilioWs := (twilioWs s)\<lparr>readyState := CLOSED\<rparr>\<rparr>)
             else s
         | TwilioError \<Rightarrow> s
         | SignedUrlSettled ok \<Rightarrow>
             if setup_pending s
             then (if ok then create_eleven_socket (s\<lparr>setup_pending := False\<rparr>)
                   else s\<lparr>setup_pending := False\<rparr>)
             else s
         | ElevenOpen i \<Rightarrow>
             if i < length (sockets s) \<and> readyState (sockets s ! i) = CONNECTING
             then eleven_on_open rv e (set_eleven_state s i OPEN)
             else s
         | ElevenMessage i fr \<Rightarrow>
             if i < length (sockets s) \<and>
                (readyState (sockets s ! i) = OPEN \<or> readyState (sockets s ! i) = CLOSING)
             then eleven_message rv s fr
             else s
         | ElevenClosing i \<Rightarrow>
             if i < length (sockets s) \<and> readyState (sockets s ! i) = OPEN
             then set_eleven_state s i CLOSING
             else s
         | ElevenClose i \<Rightarrow>
             if i < length (sockets s) \<and> readyState (sockets s ! i) \<noteq> CLOSED
             then eleven_on_close (set_eleven_state s i CLOSED)
             else s
         | ElevenError i \<Rightarrow> s))"

text \<open>A sequence of events, in the order of delivery.\<close>

fun run :: "revision \<Rightarrow> env \<Rightarrow> conn \<Rightarrow> event list \<Rightarrow> conn" where
  "run rv e s [] = s"
| "run rv e s (ev # evs) = run rv e (step rv e s ev) evs"

section \<open>Elementary updates\<close>

text \<open>
  Every handler changes the closure by a sequence of the following elementary updates,
  each under the guard the source gives it. Invariants are proved once per update.
\<close>

inductive upd :: "conn \<Rightarrow> conn \<Rightarrow> bool" where
  u_ids: "upd s (s\<lparr>streamSid := a, callSid := b\<rparr>)"
| u_conv: "upd s (s\<lparr>conversationId := a\<rparr>)"
| u_create: "upd s (create_eleven_socket s)"
| u_esend: "eleven_send s m = Some s' \<Longrightarrow> upd s s'"
| u_eclose: "eleven_is_open s \<Longrightarrow> upd s (eleven_close s)"
| u_tsend: "twilio_send s m = Some s' \<Longrightarrow> upd s s'"
| u_crash: "upd s (s\<lparr>crashed := True\<rparr>)"
| u_opened: "i < length (sockets s) \<Longrightarrow> readyState (sockets s ! i) = CONNECTING \<Longrightarrow> upd s (set_eleven_state s i OPEN)"
| u_closing: "i < length (sockets s) \<Longrightarrow> upd s (set_eleven_state s i CLOSING)"
| u_closed: "i < length (sockets s) \<Longrightarrow> upd s (set_eleven_state s i CLOSED)"
| u_null: "upd s (s\<lparr>elevenWs := None\<rparr>)"
| u_settled: "upd s (s\<lparr>setup_pending := False\<rparr>)"
| u_tclosing: "upd s (s\<lparr>twilioWs := (twilioWs s)\<lparr>readyState := CLOSING\<rparr>\<rparr>)"
| u_tclosed: "upd s (s\<lparr>twilioWs := (twilioWs s)\<lparr>readyState := CLOSED\<rparr>\<rparr>)"

abbreviation upds :: "conn \<Rightarrow> conn \<Rightarrow> bool" where
  "upds \<equiv> upd\<^sup>*\<^sup>*"

text \<open>A socket on which \<^verbatim>\<open>close()\<close> was called once is no longer connecting or open.\<close>

definition sock_ok :: "ws \<Rightarrow> bool" where
  "sock_ok w =
     (close_calls w = 0 \<or>
      (close_calls w = 1 \<and> (readyState w = CLOSING \<or> readyState w = CLOSED)))"

definition close_inv :: "conn \<Rightarrow> bool" where
  "close_inv s = (close_calls (twilioWs s) = 0 \<and> list_all sock_ok (sockets s))"

text \<open>Messages already written to a socket are never taken back, and sockets are only added.\<close>

definition sent_extends :: "conn \<Rightarrow> conn \<Rightarrow> bool" where
  "sent_extends s s' =
     (length (sockets s) \<le> length (sockets s') \<and>
      (\<forall>i < length (sockets s). \<exists>new. sent (sockets s' ! i) = sent (sockets s ! i) @ new))"

text \<open>
  The readyState and the number of \<^verbatim>\<open>close()\<close> calls of the telephony socket are the same
  in both states.
\<close>

definition tw_same_line :: "ws \<Rightarrow> ws \<Rightarrow> bool" where
  "tw_same_line w w' = (readyState w' = readyState w \<and> close_calls w' = close_calls w)"

text \<open>No AI socket exists and the telephony socket has not been written to or closed.\<close>

definition no_ai :: "conn \<Rightarrow> bool" where
  "no_ai s =
     (sockets s = [] \<and> elevenWs s = None \<and> sent (twilioWs s) = [] \<and>
      close_calls (twilioWs s) = 0)"

text \<open>
  The shape of the closure in Rev2 and Rev4, where \<^verbatim>\<open>setupElevenLabs\<close> runs once: there is
  at most one AI socket, and \<open>elevenWs\<close> refers to it until its \<^verbatim>\<open>close\<close> event.
\<close>

definition single_ai :: "conn \<Rightarrow> bool" where
  "single_ai s =
     (\<not> crashed s \<and>
      ((sockets s = [] \<and> elevenWs s = None) \<or>
       (length (sockets s) = 1 \<and> \<not> setup_pending s \<and>
        (elevenWs s = Some 0 \<or> (elevenWs s = None \<and> readyState (sockets s ! 0) = CLOSED)))))"


section \<open>Commands seen on the wire\<close>

text \<open>A ClearBuffer command: \<^verbatim>\<open>{"event":"clear","streamSid":...}\<close>.\<close>

definition is_clear_frame :: "jv \<Rightarrow> bool" where
  "is_clear_frame f =
     (f = JObj [(''event'', JStr ''clear''), (''streamSid'', get_prop f ''streamSid'')])"

text \<open>
  A PlayAudio command \<^verbatim>\<open>{"event":"media","streamSid":...,"media":{"payload":p}}\<close> whose payload
  is one of the three payload fields of the AI message \<open>m\<close>.
\<close>

definition play_audio_of :: "jv \<Rightarrow> jv \<Rightarrow> bool" where
  "play_audio_of m f =
     (f = JObj [(''event'', JStr ''media''),
                (''streamSid'', get_prop f ''streamSid''),
                (''media'', JObj [(''payload'', get_prop (get_prop f ''media'') ''payload'')])] \<and>
      get_prop (get_prop f ''media'') ''payload'' \<in>
        set [get_prop (get_prop m ''audio'') ''chunk'',
             get_prop (get_prop m ''audio_event'') ''audio_base_64'',
             get_prop m ''audio''])"

text \<open>What a handler of the AI socket, given the message \<open>m\<close>, appends to the telephony socket.\<close>

definition tw_out :: "conn \<Rightarrow> conn \<Rightarrow> jv \<Rightarrow> bool" where
  "tw_out s s' m =
     (\<exists>new. sent (twilioWs s') = sent (twilioWs s) @ new \<and>
            (\<forall>f \<in> set new. is_clear_frame f \<or> play_audio_of m f))"

text \<open>The closure after one PlayAudio command with payload \<open>p\<close> was written.\<close>

definition play_audio :: "conn \<Rightarrow> jv \<Rightarrow> conn" where
  "play_audio s p =
     s\<lparr>twilioWs := (twilioWs s)\<lparr>sent := sent (twilioWs s) @
          [JObj [(''event'', JStr ''media''), (''streamSid'', streamSid s),
                 (''media'', JObj [(''payload'', p)])]]\<rparr>\<rparr>"

text \<open>\<^verbatim>\<open>typeof p === "string" && p.length > 0\<close>\<close>

definition is_nonempty_string :: "jv \<Rightarrow> bool" where
  "is_nonempty_string p = (case p of JStr x \<Rightarrow> x \<noteq> [] | _ \<Rightarrow> False)"

text \<open>The message the AI socket receives for a caller payload \<open>p\<close>.\<close>

definition user_audio :: "revision \<Rightarrow> string \<Rightarrow> jv" where
  "user_audio rv p =
     JObj [(''user_audio_chunk'',
            JStr (if rv = Rev2 \<or> rv = Rev4 then base64_reencode p else p))]"

section \<open>Example inputs\<close>

definition example_env :: env where
  "example_env =
     \<lparr>ELEVENLABS_API_KEY = Some ''key'', ELEVENLABS_AGENT_ID = Some ''agent'',
      SYSTEM_PROMPT = ''system'', FIRST_MESSAGE = ''hello'', inline_prompt = ''inline'',
      buffer_from_object = (\<lambda>v. None)\<rparr>"

definition env_without_key :: env where
  "env_without_key = example_env\<lparr>ELEVENLABS_API_KEY := None\<rparr>"

text \<open>\<^verbatim>\<open>{"event":"start","start":{"streamSid":sid,"callSid":cid}}\<close>\<close>

definition start_frame :: "string \<Rightarrow> string \<Rightarrow> frame" where
  "start_frame sid cid =
     Json (JObj [(''event'', JStr ''start''),
                 (''start'', JObj [(''streamSid'', JStr sid), (''callSid'', JStr cid)])])"

text \<open>\<^verbatim>\<open>{"event":"media","media":{"payload":p}}\<close>\<close>

definition media_in :: "string \<Rightarrow> frame" where
  "media_in p = Json (JObj [(''event'', JStr ''media''), (''media'', JObj [(''payload'', JStr p)])])"

text \<open>\<^verbatim>\<open>{"event":"stop"}\<close>\<close>

definition stop_frame :: frame where
  "stop_frame = Json (JObj [(''event'', JStr ''stop'')])"

text \<open>\<^verbatim>\<open>{"type":"audio","audio":{"chunk":c}}\<close>\<close>

definition audio_frame :: "jv \<Rightarrow> frame" where
  "audio_frame c = Json (JObj [(''type'', JStr ''audio''), (''audio'', JObj [(''chunk'', c)])])"

text \<open>\<^verbatim>\<open>{"type":"interruption"}\<close>\<close>

definition interruption_frame :: frame where
  "interruption_frame = Json (JObj [(''type'', JStr ''interruption'')])"

text \<open>\<^verbatim>\<open>{"type":"ping","ping_event":{"event_id":n}}\<close>\<close>

definition ping_frame :: "jv \<Rightarrow> frame" where
  "ping_frame n = Json (JObj [(''type'', JStr ''ping''), (''ping_event'', JObj [(''event_id'', n)])])"

text \<open>A call in progress under Rev1: Start was processed and the AI socket has opened.\<close>

definition active_call :: conn where
  "active_call =
     \<lparr>streamSid = JStr ''MZ1'', callSid = JStr ''CA1'', conversationId = JNull,
      elevenWs = Some 0,
      sockets = [\<lparr>readyState = OPEN, sent = [init_msg_r1], close_calls = 0\<rparr>],
      twilioWs = \<lparr>readyState = OPEN, sent = [], close_calls = 0\<rparr>,
      setup_pending = False, crashed = False\<rparr>"

text \<open>Rev4 before any Start: the AI socket is already open.\<close>

definition early_ai_call :: conn where
  "early_ai_call =
     \<lparr>streamSid = JNull, callSid = JNull, conversationId = JNull,
      elevenWs = Some 0,
      sockets = [\<lparr>readyState = OPEN, sent = [init_msg_r2 example_env], close_calls = 0\<rparr>],
      twilioWs = \<lparr>readyState = OPEN, sent = [], close_calls = 0\<rparr>,
      setup_pending = False, crashed = False\<rparr>"

section \<open>Every step is a sequence of elementary updates\<close>

lemma upds_one: "upd s s' \<Longrightarrow> upds s s'"
  by (rule r_into_rtranclp)

lemma upds_caught_esend: "upds s (caught s (eleven_send s m))"
  by (auto simp: caught_def split: option.splits intro: upds_one u_esend)

lemma upds_caught_tsend: "upds s (caught s (twilio_send s m))"
  by (auto simp: caught_def split: option.splits intro: upds_one u_tsend)

lemma upds_uncaught_esend: "upds s (uncaught s (eleven_send s m))"
  by (auto simp: uncaught_def split: option.splits intro: upds_one u_esend u_crash)

lemma upds_close_if_open: "upds s (close_eleven_if_open s)"
  by (auto simp: close_eleven_if_open_def intro: upds_one u_eclose)

lemma upds_connect: "upds s (connect_on_start rv e s)"
  by (cases rv) (auto simp: connectElevenLabs_u_def connectElevenLabs_r1_def intro: upds_one u_create)

lemma upds_on_start: "upds s (on_start rv e s msg)"
proof (cases "dot_prop (get_prop msg ''start'') ''streamSid''")
  case None
  then show ?thesis by (simp add: on_start_def)
next
  case (Some sid)
  let ?s' = "s\<lparr>streamSid := sid, callSid := get_prop (get_prop msg ''start'') ''callSid''\<rparr>"
  have a: "upds s ?s'" by (rule upds_one) (rule u_ids)
  have b: "upds ?s' (connect_on_start rv e ?s')" by (rule upds_connect)
  from a b have "upds s (connect_on_start rv e ?s')" by (rule rtranclp_trans)
  with a Some show ?thesis by (simp add: on_start_def Let_def)
qed

lemma upds_on_media: "upds s (on_media rv e s msg)"
  by (cases rv)
     (auto simp: on_media_r1_def on_media_r2_def upds_caught_esend split: option.splits)

lemma upds_twilio_message: "upds s (twilio_message rv e s fr)"
  by (auto simp: twilio_message_def upds_on_start upds_on_media upds_close_if_open
      split: frame.splits option.splits)

lemma upds_on_audio_r1: "upds s (on_audio_r1 s msg)"
  by (auto simp: on_audio_r1_def upds_caught_tsend split: jv.splits)

lemma upds_on_audio_r2: "upds s (on_audio_r2 s msg)"
  by (auto simp: on_audio_r2_def upds_caught_tsend)

lemma upds_on_interruption: "upds s (on_interruption s)"
  by (auto simp: on_interruption_def upds_caught_tsend)

lemma upds_on_ping_r1: "upds s (on_ping_r1 s msg)"
  by (simp add: on_ping_r1_def Let_def upds_caught_esend)

lemma upds_on_ping_r2: "upds s (on_ping_r2 s msg)"
  by (simp add: on_ping_r2_def Let_def upds_caught_esend)

lemma upds_eleven_message: "upds s (eleven_message rv s fr)"
  by (cases rv)
     (auto simp: eleven_message_u_def eleven_message_r1_def eleven_message_r2_def
        upds_on_audio_r1 upds_on_audio_r2 upds_on_interruption upds_on_ping_r1 upds_on_ping_r2
        intro: upds_one u_conv
        split: frame.splits option.splits)

lemma upds_eleven_on_open: "upds s (eleven_on_open rv e s)"
  by (cases rv) (auto simp: upds_uncaught_esend)

lemma upds_step: "upds s (step rv e s ev)"
proof (cases "crashed s")
  case True
  then show ?thesis by (simp add: step_def)
next
  case False
  show ?thesis
  proof (cases ev)
    case (TwilioMessage fr)
    with False show ?thesis by (simp add: step_def upds_twilio_message)
  next
    case TwilioClosing
    with False show ?thesis by (auto simp: step_def intro: upds_one u_tclosing)
  next
    case TwilioClose
    have "upds s (close_eleven_if_open (s\<lparr>twilioWs := (twilioWs s)\<lparr>readyState := CLOSED\<rparr>\<rparr>))"
      by (rule converse_rtranclp_into_rtranclp [OF u_tclosed upds_close_if_open])
    with False TwilioClose show ?thesis by (simp add: step_def twilio_on_close_def)
  next
    case TwilioError
    with False show ?thesis by (simp add: step_def)
  next
    case (SignedUrlSettled ok)
    have "upds s (create_eleven_socket (s\<lparr>setup_pending := False\<rparr>))"
      by (rule converse_rtranclp_into_rtranclp [OF u_settled upds_one [OF u_create]])
    with False SignedUrlSettled show ?thesis
      by (auto simp: step_def intro: upds_one u_settled)
  next
    case (ElevenOpen i)
    have "i < length (sockets s) \<Longrightarrow> readyState (sockets s ! i) = CONNECTING \<Longrightarrow>
          upds s (eleven_on_open rv e (set_eleven_state s i OPEN))"
      by (rule converse_rtranclp_into_rtranclp [OF u_opened upds_eleven_on_open])
    with False ElevenOpen show ?thesis by (simp add: step_def)
  next
    case (ElevenMessage i fr)
    with False show ?thesis by (simp add: step_def upds_eleven_message)
  next
    case (ElevenClosing i)
    with False show ?thesis by (auto simp: step_def intro: upds_one u_closing)
  next
    case (ElevenClose i)
    have "i < length (sockets s) \<Longrightarrow> upds s (eleven_on_close (set_eleven_state s i CLOSED))"
      unfolding eleven_on_close_def
      by (rule converse_rtranclp_into_rtranclp [OF u_closed upds_one [OF u_null]])
    with False ElevenClose show ?thesis by (simp add: step_def)
  next
    case (ElevenError i)
    with False show ?thesis by (simp add: step_def)
  qed
qed

lemma upds_run: "upds s (run rv e s evs)"
proof (induction evs arbitrary: s)
  case Nil
  show ?case by simp
next
  case (Cons ev evs)
  have "upds s (step rv e s ev)" by (rule upds_step)
  moreover have "upds (step rv e s ev) (run rv e (step rv e s ev) evs)" by (rule Cons.IH)
  ultimately show ?case by (simp add: rtranclp_trans)
qed

section \<open>Reading messages\<close>

lemma opt_prop_get: "opt_prop v k = get_prop v k"
  by (cases v) (simp_all add: opt_prop_def nullish_def)

lemma get_prop_truthy_obj: "truthy (get_prop v k) \<Longrightarrow> \<not> nullish v"
  by (cases v) (simp_all add: nullish_def)

lemma dot_prop_truthy: "truthy (get_prop v k) \<Longrightarrow> dot_prop v k = Some (get_prop v k)"
  by (simp add: dot_prop_def get_prop_truthy_obj)

lemma truthy_not_undefined: "truthy v \<Longrightarrow> v \<noteq> JUndefined"
  by (cases v) simp_all

lemma dot_prop_str: "get_prop v k = JStr x \<Longrightarrow> dot_prop v k = Some (JStr x)"
  by (cases v) (simp_all add: dot_prop_def nullish_def)

lemma dot_prop_eq_str: "dot_prop v k = Some (JStr x) \<Longrightarrow> get_prop v k = JStr x"
  by (simp add: dot_prop_def split: if_splits)

lemmas audio_defs = on_audio_r1_def on_audio_r2_def audio_payload_r1_def audio_payload_r2_def
  js_or_def twilio_ready_def caught_def twilio_send_def ws_send_def media_frame_def
  stringify_obj_def opt_prop_get

lemma eleven_message_audio:
  assumes "get_prop msg ''type'' = JStr ''audio''"
  shows "eleven_message rv s (Json msg) =
           (case rv of Rev1 \<Rightarrow> on_audio_r1 s msg | _ \<Rightarrow> on_audio_r2 s msg)"
proof -
  from assms have "truthy (get_prop msg ''type'')" by simp
  then have "dot_prop msg ''type'' = Some (JStr ''audio'')"
    using assms by (simp add: dot_prop_truthy)
  then show ?thesis
    by (cases rv) (simp_all add: eleven_message_u_def eleven_message_r1_def eleven_message_r2_def)
qed

lemma eleven_message_ping:
  assumes "get_prop msg ''type'' = JStr ''ping''"
  shows "eleven_message rv s (Json msg) =
           (case rv of Rev2 \<Rightarrow> on_ping_r2 s msg | Rev4 \<Rightarrow> on_ping_r2 s msg | _ \<Rightarrow> on_ping_r1 s msg)"
proof -
  from assms have "truthy (get_prop msg ''type'')" by simp
  then have "dot_prop msg ''type'' = Some (JStr ''ping'')"
    using assms by (simp add: dot_prop_truthy)
  then show ?thesis
    by (cases rv) (simp_all add: eleven_message_u_def eleven_message_r1_def eleven_message_r2_def)
qed

lemma eleven_message_interruption:
  assumes "get_prop msg ''type'' = JStr ''interruption''"
  shows "eleven_message rv s (Json msg) = on_interruption s"
proof -
  from assms have "truthy (get_prop msg ''type'')" by simp
  then have "dot_prop msg ''type'' = Some (JStr ''interruption'')"
    using assms by (simp add: dot_prop_truthy)
  then show ?thesis
    by (cases rv) (simp_all add: eleven_message_u_def eleven_message_r1_def eleven_message_r2_def)
qed

lemma eleven_message_unparsable: "eleven_message rv s Unparsable = s"
  by (cases rv)
     (simp_all add: eleven_message_u_def eleven_message_r1_def eleven_message_r2_def)

lemma twilio_message_media:
  assumes "get_prop msg ''event'' = JStr ''media''"
  shows "twilio_message rv e s (Json msg) = on_media rv e s msg"
proof -
  from assms have "truthy (get_prop msg ''event'')" by simp
  then have "dot_prop msg ''event'' = Some (JStr ''media'')"
    using assms by (simp add: dot_prop_truthy)
  then show ?thesis by (simp add: twilio_message_def)
qed

lemma twilio_message_start:
  assumes "get_prop msg ''event'' = JStr ''start''"
  shows "twilio_message rv e s (Json msg) = on_start rv e s msg"
  using dot_prop_str [OF assms] by (simp add: twilio_message_def)

section \<open>Audio events while the telephony side is ready\<close>

lemma on_audio_r2_ready:
  assumes "truthy (streamSid s)" and "readyState (twilioWs s) = OPEN"
  shows "on_audio_r2 s msg =
           (if truthy (audio_payload_r2 msg) then play_audio s (audio_payload_r2 msg) else s)"
  using assms
  by (simp add: on_audio_r2_def twilio_ready_def caught_def twilio_send_def ws_send_def
      media_frame_def stringify_obj_def truthy_not_undefined play_audio_def)

lemma on_audio_r1_ready:
  assumes "truthy (streamSid s)" and "readyState (twilioWs s) = OPEN"
  shows "on_audio_r1 s msg =
           (if is_nonempty_string (audio_payload_r1 msg)
            then play_audio s (audio_payload_r1 msg) else s)"
proof (cases "audio_payload_r1 msg")
  case (JStr x)
  with assms show ?thesis
    by (simp add: on_audio_r1_def twilio_ready_def caught_def twilio_send_def ws_send_def
        media_frame_def stringify_obj_def truthy_not_undefined play_audio_def
        is_nonempty_string_def)
qed (simp_all add: on_audio_r1_def is_nonempty_string_def)

lemma audio_payload_r2_eq:
  "audio_payload_r2 msg =
     (if truthy (get_prop (get_prop msg ''audio'') ''chunk'')
      then get_prop (get_prop msg ''audio'') ''chunk''
      else get_prop (get_prop msg ''audio_event'') ''audio_base_64'')"
  by (simp add: audio_payload_r2_def js_or_def opt_prop_get)

lemma audio_payload_r1_eq:
  "audio_payload_r1 msg =
     (if truthy (get_prop (get_prop msg ''audio'') ''chunk'')
      then get_prop (get_prop msg ''audio'') ''chunk''
      else if truthy (get_prop (get_prop msg ''audio_event'') ''audio_base_64'')
      then get_prop (get_prop msg ''audio_event'') ''audio_base_64''
      else get_prop msg ''audio'')"
  by (simp add: audio_payload_r1_def js_or_def opt_prop_get)

section \<open>The example states are reachable\<close>

lemma active_call_reached:
  "run Rev1 example_env (accept Rev1 example_env)
     [TwilioMessage (start_frame ''MZ1'' ''CA1''), ElevenOpen 0] = active_call"
  by code_simp

lemma early_ai_call_reached:
  "run Rev4 example_env (accept Rev4 example_env) [SignedUrlSettled True, ElevenOpen 0] =
     early_ai_call"
  by code_simp

section \<open>Written messages stay written\<close>

lemma sent_extends_refl: "sent_extends s s"
  by (simp add: sent_extends_def)

lemma sent_extends_trans:
  assumes "sent_extends s t" and "sent_extends t u"
  shows "sent_extends s u"
  unfolding sent_extends_def
proof (intro conjI allI impI)
  from assms show "length (sockets s) \<le> length (sockets u)"
    by (simp add: sent_extends_def)
next
  fix i assume i: "i < length (sockets s)"
  with assms(1) have it: "i < length (sockets t)" by (simp add: sent_extends_def)
  from assms(1) i obtain a where a: "sent (sockets t ! i) = sent (sockets s ! i) @ a"
    unfolding sent_extends_def by blast
  from assms(2) it obtain b where b: "sent (sockets u ! i) = sent (sockets t ! i) @ b"
    unfolding sent_extends_def by blast
  from a b have "sent (sockets u ! i) = sent (sockets s ! i) @ (a @ b)" by simp
  then show "\<exists>new. sent (sockets u ! i) = sent (sockets s ! i) @ new" ..
qed

lemma sent_extends_update:
  assumes "j < length (sockets s) \<Longrightarrow> \<exists>new. sent w = sent (sockets s ! j) @ new"
  shows "sent_extends s (s\<lparr>sockets := (sockets s)[j := w]\<rparr>)"
  unfolding sent_extends_def
proof (intro conjI allI impI)
  show "length (sockets s) \<le> length (sockets (s\<lparr>sockets := (sockets s)[j := w]\<rparr>))" by simp
next
  fix i assume i: "i < length (sockets s)"
  show "\<exists>new. sent (sockets (s\<lparr>sockets := (sockets s)[j := w]\<rparr>) ! i) = sent (sockets s ! i) @ new"
  proof (cases "i = j")
    case True
    with i assms show ?thesis by simp
  next
    case False
    then show ?thesis by simp
  qed
qed

lemma ws_send_extends: "ws_send w m = Some w' \<Longrightarrow> \<exists>new. sent w' = sent w @ new"
  by (auto simp: ws_send_def split: ready_state.splits)

lemma sent_extends_upd: "upd s s' \<Longrightarrow> sent_extends s s'"
proof (induction rule: upd.induct)
  case (u_create s)
  show ?case by (simp add: sent_extends_def create_eleven_socket_def nth_append)
next
  case (u_esend s m s')
  then obtain j w where
    w: "ws_send (sockets s ! j) m = Some w" and s': "s' = s\<lparr>sockets := (sockets s)[j := w]\<rparr>"
    by (auto simp: eleven_send_def split: option.splits)
  show ?case unfolding s' by (rule sent_extends_update) (rule ws_send_extends [OF w])
next
  case (u_eclose s)
  show ?case
  proof (cases "elevenWs s")
    case None
    then show ?thesis by (simp add: eleven_close_def sent_extends_refl)
  next
    case (Some j)
    have "sent_extends s (s\<lparr>sockets := (sockets s)[j := ws_close (sockets s ! j)]\<rparr>)"
      by (rule sent_extends_update) (simp add: ws_close_def split: ready_state.splits)
    with Some show ?thesis by (simp add: eleven_close_def)
  qed
next
  case (u_tsend s m s')
  then show ?case
    by (auto simp: twilio_send_def sent_extends_def split: option.splits)
next
  case (u_opened i s)
  show ?case unfolding set_eleven_state_def by (rule sent_extends_update) simp
next
  case (u_closing i s)
  show ?case unfolding set_eleven_state_def by (rule sent_extends_update) simp
next
  case (u_closed i s)
  show ?case unfolding set_eleven_state_def by (rule sent_extends_update) simp
qed (simp_all add: sent_extends_def)

lemma sent_extends_upds: "upds s s' \<Longrightarrow> sent_extends s s'"
  by (induction rule: rtranclp_induct) (auto intro: sent_extends_refl sent_extends_trans sent_extends_upd)

lemma sent_extends_run: "sent_extends s (run rv e s evs)"
  by (rule sent_extends_upds [OF upds_run])

section \<open>The telephony socket under the handlers\<close>

lemma tw_caught_esend: "twilioWs (caught s (eleven_send s m)) = twilioWs s"
  by (auto simp: caught_def eleven_send_def split: option.splits)

lemma tw_uncaught_esend: "twilioWs (uncaught s (eleven_send s m)) = twilioWs s"
  by (auto simp: uncaught_def eleven_send_def split: option.splits)

lemma tw_close_if_open: "twilioWs (close_eleven_if_open s) = twilioWs s"
  by (auto simp: close_eleven_if_open_def eleven_close_def split: option.splits)

lemma tw_connect: "twilioWs (connect_on_start rv e s) = twilioWs s"
  by (cases rv)
     (simp_all add: connectElevenLabs_u_def connectElevenLabs_r1_def create_eleven_socket_def)

lemma tw_on_start: "twilioWs (on_start rv e s msg) = twilioWs s"
  by (simp add: on_start_def Let_def tw_connect split: option.splits)

lemma tw_on_media: "twilioWs (on_media rv e s msg) = twilioWs s"
  by (cases rv)
     (simp_all add: on_media_r1_def on_media_r2_def tw_caught_esend split: option.splits)

lemma tw_twilio_message: "twilioWs (twilio_message rv e s fr) = twilioWs s"
  by (simp add: twilio_message_def tw_on_start tw_on_media tw_close_if_open
      split: frame.splits option.splits)

lemma tw_eleven_on_open: "twilioWs (eleven_on_open rv e s) = twilioWs s"
  by (cases rv) (simp_all add: tw_uncaught_esend)

lemma tw_on_ping_r1: "twilioWs (on_ping_r1 s msg) = twilioWs s"
  by (simp add: on_ping_r1_def Let_def tw_caught_esend)

lemma tw_on_ping_r2: "twilioWs (on_ping_r2 s msg) = twilioWs s"
  by (simp add: on_ping_r2_def Let_def tw_caught_esend)

lemma tw_out_same: "twilioWs s' = twilioWs s \<Longrightarrow> tw_out s s' m"
  by (simp add: tw_out_def)

lemma media_frame_play:
  assumes "truthy sid" and "truthy p"
    and "p \<in> set [get_prop (get_prop m ''audio'') ''chunk'',
                  get_prop (get_prop m ''audio_event'') ''audio_base_64'',
                  get_prop m ''audio'']"
  shows "play_audio_of m (media_frame sid p)"
  using assms
  by (simp add: play_audio_of_def media_frame_def stringify_obj_def truthy_not_undefined)

lemma clear_frame_clear: "truthy sid \<Longrightarrow> is_clear_frame (clear_frame sid)"
  by (simp add: is_clear_frame_def clear_frame_def stringify_obj_def truthy_not_undefined)

lemma tw_out_send:
  assumes "readyState (twilioWs s) = OPEN" and "is_clear_frame f \<or> play_audio_of m f"
  shows "tw_out s (caught s (twilio_send s f)) m"
  using assms by (simp add: tw_out_def caught_def twilio_send_def ws_send_def)

lemma tw_out_on_audio_r1: "tw_out s (on_audio_r1 s m) m"
proof (cases "twilio_ready s \<and> (\<exists>p. audio_payload_r1 m = JStr p \<and> p \<noteq> [])")
  case True
  then obtain p where p: "audio_payload_r1 m = JStr p" "p \<noteq> []" by blast
  from p have "JStr p \<in> set [get_prop (get_prop m ''audio'') ''chunk'',
                  get_prop (get_prop m ''audio_event'') ''audio_base_64'',
                  get_prop m ''audio'']"
    by (auto simp: audio_payload_r1_def js_or_def opt_prop_get split: if_splits)
  with True p have "play_audio_of m (media_frame (streamSid s) (JStr p))"
    by (intro media_frame_play) (simp_all add: twilio_ready_def)
  with True p show ?thesis
    by (simp add: on_audio_r1_def tw_out_send twilio_ready_def)
next
  case False
  then have "on_audio_r1 s m = s"
    by (auto simp: on_audio_r1_def split: jv.splits)
  then show ?thesis by (simp add: tw_out_same)
qed

lemma tw_out_on_audio_r2: "tw_out s (on_audio_r2 s m) m"
proof (cases "twilio_ready s \<and> truthy (audio_payload_r2 m)")
  case True
  have "audio_payload_r2 m \<in> set [get_prop (get_prop m ''audio'') ''chunk'',
                  get_prop (get_prop m ''audio_event'') ''audio_base_64'',
                  get_prop m ''audio'']"
    by (simp add: audio_payload_r2_def js_or_def opt_prop_get)
  with True have "play_audio_of m (media_frame (streamSid s) (audio_payload_r2 m))"
    by (intro media_frame_play) (simp_all add: twilio_ready_def)
  with True show ?thesis
    by (simp add: on_audio_r2_def tw_out_send twilio_ready_def)
next
  case False
  then have "on_audio_r2 s m = s"
    by (auto simp: on_audio_r2_def)
  then show ?thesis by (simp add: tw_out_same)
qed

lemma tw_out_on_interruption: "tw_out s (on_interruption s) m"
  by (auto simp: on_interruption_def twilio_ready_def tw_out_same
      intro: tw_out_send clear_frame_clear)

lemma tw_out_eleven_message: "tw_out s (eleven_message rv s (Json m)) m"
  by (cases rv)
     (auto simp: eleven_message_u_def eleven_message_r1_def eleven_message_r2_def
        tw_out_on_audio_r1 tw_out_on_audio_r2 tw_out_on_interruption
        tw_on_ping_r1 tw_on_ping_r2 tw_out_same split: option.splits)

lemma step_twilio_out:
  "\<exists>new. sent (twilioWs (step rv e s ev)) = sent (twilioWs s) @ new \<and>
         (\<forall>f \<in> set new. is_clear_frame f \<or>
            (\<exists>j m. ev = ElevenMessage j (Json m) \<and> play_audio_of m f))"
proof (cases "crashed s")
  case True
  then show ?thesis by (simp add: step_def)
next
  case False
  show ?thesis
  proof (cases ev)
    case (ElevenMessage j fr)
    show ?thesis
    proof (cases fr)
      case Unparsable
      with ElevenMessage False show ?thesis
        by (simp add: step_def eleven_message_unparsable)
    next
      case (Json m)
      from tw_out_eleven_message [of s rv m] ElevenMessage Json False show ?thesis
        by (auto simp: step_def tw_out_def)
    qed
  qed (simp_all add: step_def False tw_twilio_message twilio_on_close_def tw_close_if_open
        create_eleven_socket_def tw_eleven_on_open set_eleven_state_def eleven_on_close_def)
qed

lemma run_twilio_out:
  "\<exists>new. sent (twilioWs (run rv e s evs)) = sent (twilioWs s) @ new \<and>
         (\<forall>f \<in> set new. is_clear_frame f \<or>
            (\<exists>j m. ElevenMessage j (Json m) \<in> set evs \<and> play_audio_of m f))"
proof (induction evs arbitrary: s)
  case Nil
  show ?case by simp
next
  case (Cons ev evs)
  let ?t = "step rv e s ev"
  from step_twilio_out [of rv e s ev] obtain a where
    a: "sent (twilioWs ?t) = sent (twilioWs s) @ a"
       "\<forall>f \<in> set a. is_clear_frame f \<or> (\<exists>j m. ev = ElevenMessage j (Json m) \<and> play_audio_of m f)"
    by blast
  from Cons.IH [of ?t] obtain b where
    b: "sent (twilioWs (run rv e ?t evs)) = sent (twilioWs ?t) @ b"
       "\<forall>f \<in> set b. is_clear_frame f \<or>
           (\<exists>j m. ElevenMessage j (Json m) \<in> set evs \<and> play_audio_of m f)"
    by blast
  from a(1) b(1) have "sent (twilioWs (run rv e s (ev # evs))) = sent (twilioWs s) @ (a @ b)"
    by simp
  moreover from a(2) b(2) have
    "\<forall>f \<in> set (a @ b). is_clear_frame f \<or>
        (\<exists>j m. ElevenMessage j (Json m) \<in> set (ev # evs) \<and> play_audio_of m f)"
    by auto
  ultimately show ?case by blast
qed

lemma same_line_refl: "tw_same_line w w"
  by (simp add: tw_same_line_def)

lemma same_line_caught_tsend: "tw_same_line (twilioWs s) (twilioWs (caught s (twilio_send s m)))"
  by (auto simp: tw_same_line_def caught_def twilio_send_def ws_send_def
      split: option.splits ready_state.splits)

lemma same_line_on_audio_r1: "tw_same_line (twilioWs s) (twilioWs (on_audio_r1 s m))"
  by (auto simp: on_audio_r1_def same_line_refl same_line_caught_tsend split: jv.splits)

lemma same_line_on_audio_r2: "tw_same_line (twilioWs s) (twilioWs (on_audio_r2 s m))"
  by (auto simp: on_audio_r2_def same_line_refl same_line_caught_tsend)

lemma same_line_on_interruption: "tw_same_line (twilioWs s) (twilioWs (on_interruption s))"
  by (auto simp: on_interruption_def same_line_refl same_line_caught_tsend)

lemma same_line_eleven_message: "tw_same_line (twilioWs s) (twilioWs (eleven_message rv s fr))"
  by (cases rv)
     (auto simp: eleven_message_u_def eleven_message_r1_def eleven_message_r2_def
        same_line_on_audio_r1 same_line_on_audio_r2 same_line_on_interruption
        tw_on_ping_r1 tw_on_ping_r2 same_line_refl split: frame.splits option.splits)

lemma step_same_line:
  "ev \<noteq> TwilioClose \<Longrightarrow> ev \<noteq> TwilioClosing \<Longrightarrow>
     tw_same_line (twilioWs s) (twilioWs (step rv e s ev))"
proof (cases "crashed s")
  case True
  then show ?thesis by (simp add: step_def same_line_refl)
next
  case False
  assume "ev \<noteq> TwilioClose" and "ev \<noteq> TwilioClosing"
  then show ?thesis
    by (cases ev)
       (simp_all add: step_def False tw_twilio_message create_eleven_socket_def
          tw_eleven_on_open set_eleven_state_def eleven_on_close_def same_line_refl
          same_line_eleven_message)
qed

lemma run_same_line:
  "TwilioClose \<notin> set evs \<Longrightarrow> TwilioClosing \<notin> set evs \<Longrightarrow>
     tw_same_line (twilioWs s) (twilioWs (run rv e s evs))"
proof (induction evs arbitrary: s)
  case Nil
  show ?case by (simp add: same_line_refl)
next
  case (Cons ev evs)
  then have "ev \<noteq> TwilioClose" and "ev \<noteq> TwilioClosing"
    and "TwilioClose \<notin> set evs" and "TwilioClosing \<notin> set evs" by auto
  from step_same_line [OF this(1,2), of s rv e] Cons.IH [OF this(3,4), of "step rv e s ev"]
  show ?case by (simp add: tw_same_line_def)
qed




section \<open>Sessions without an AI socket\<close>

lemma no_ai_not_open: "no_ai s \<Longrightarrow> \<not> eleven_is_open s"
  by (simp add: no_ai_def eleven_is_open_def)

lemma no_ai_ids: "no_ai s \<Longrightarrow> no_ai (s\<lparr>streamSid := a, callSid := b\<rparr>)"
  by (simp add: no_ai_def)

lemma no_ai_on_start:
  assumes "no_ai s" and "\<forall>t. connect_on_start rv e t = t"
  shows "no_ai (on_start rv e s msg)"
  using assms by (simp add: on_start_def Let_def no_ai_ids split: option.splits)

lemma no_ai_on_media: "no_ai s \<Longrightarrow> on_media rv e s msg = s"
  by (cases rv) (simp_all add: on_media_r1_def on_media_r2_def no_ai_not_open)

lemma no_ai_close_if_open: "no_ai s \<Longrightarrow> close_eleven_if_open s = s"
  by (simp add: close_eleven_if_open_def no_ai_not_open)

lemma no_ai_twilio_message:
  assumes "no_ai s"
    and "\<forall>msg. fr = Json msg \<and> get_prop msg ''event'' = JStr ''start'' \<longrightarrow>
           (\<forall>t. connect_on_start rv e t = t)"
  shows "no_ai (twilio_message rv e s fr)"
proof (cases fr)
  case Unparsable
  with assms(1) show ?thesis by (simp add: twilio_message_def)
next
  case (Json msg)
  show ?thesis
  proof (cases "dot_prop msg ''event''")
    case None
    with Json assms(1) show ?thesis by (simp add: twilio_message_def)
  next
    case (Some ev)
    show ?thesis
    proof (cases "ev = JStr ''start''")
      case True
      with Some have "get_prop msg ''event'' = JStr ''start''" by (simp add: dot_prop_eq_str)
      with assms(2) Json have "\<forall>t. connect_on_start rv e t = t" by blast
      with True Some Json assms(1) show ?thesis
        by (simp add: twilio_message_def no_ai_on_start)
    next
      case False
      with Some Json assms(1) show ?thesis
        by (simp add: twilio_message_def no_ai_on_media no_ai_close_if_open)
    qed
  qed
qed

lemma step_no_ai:
  assumes "no_ai s"
    and "ev = SignedUrlSettled True \<longrightarrow> \<not> setup_pending s"
    and "\<forall>msg. ev = TwilioMessage (Json msg) \<and> get_prop msg ''event'' = JStr ''start'' \<longrightarrow>
           (\<forall>t. connect_on_start rv e t = t)"
  shows "no_ai (step rv e s ev)"
proof (cases ev)
  case (TwilioMessage fr)
  from assms(3) TwilioMessage have
    "\<forall>msg. fr = Json msg \<and> get_prop msg ''event'' = JStr ''start'' \<longrightarrow>
       (\<forall>t. connect_on_start rv e t = t)" by simp
  from no_ai_twilio_message [OF assms(1) this] TwilioMessage assms(1) show ?thesis
    by (simp add: step_def)
next
  case TwilioClose
  have "no_ai (s\<lparr>twilioWs := (twilioWs s)\<lparr>readyState := CLOSED\<rparr>\<rparr>)"
    using assms(1) by (simp add: no_ai_def)
  with TwilioClose assms(1) show ?thesis
    by (simp add: step_def twilio_on_close_def no_ai_close_if_open)
next
  case (SignedUrlSettled ok)
  with assms(1,2) show ?thesis by (auto simp: step_def no_ai_def)
qed (use assms(1) in \<open>simp_all add: step_def no_ai_def\<close>)

lemma pending_upd: "upd s s' \<Longrightarrow> setup_pending s' \<Longrightarrow> setup_pending s"
  by (induction rule: upd.induct)
     (auto simp: create_eleven_socket_def eleven_send_def eleven_close_def twilio_send_def
        set_eleven_state_def split: option.splits)

lemma pending_upds: "upds s s' \<Longrightarrow> setup_pending s' \<Longrightarrow> setup_pending s"
  by (induction rule: rtranclp_induct) (auto dest: pending_upd)

lemma step_pending: "\<not> setup_pending s \<Longrightarrow> \<not> setup_pending (step rv e s ev)"
  using pending_upds [OF upds_step] by blast

lemma run_no_ai:
  assumes "no_ai s"
    and "\<not> setup_pending s \<or> SignedUrlSettled True \<notin> set evs"
    and "\<forall>msg. TwilioMessage (Json msg) \<in> set evs \<and> get_prop msg ''event'' = JStr ''start'' \<longrightarrow>
           (\<forall>t. connect_on_start rv e t = t)"
  shows "no_ai (run rv e s evs)"
  using assms
proof (induction evs arbitrary: s)
  case Nil
  then show ?case by simp
next
  case (Cons ev evs)
  have a: "no_ai (step rv e s ev)"
    using Cons.prems by (intro step_no_ai) auto
  have b: "\<not> setup_pending (step rv e s ev) \<or> SignedUrlSettled True \<notin> set evs"
    using Cons.prems(2) step_pending [of s rv e ev] by auto
  have c: "\<forall>msg. TwilioMessage (Json msg) \<in> set evs \<and> get_prop msg ''event'' = JStr ''start'' \<longrightarrow>
           (\<forall>t. connect_on_start rv e t = t)"
    using Cons.prems(3) by auto
  from Cons.IH [OF a b c] show ?case by simp
qed

lemma no_ai_accept: "no_ai (accept rv e)"
  by (simp add: no_ai_def accept_def)

section \<open>Rev2 and Rev4 have one AI socket\<close>

lemma single_ai_accept: "single_ai (accept rv e)"
  by (simp add: single_ai_def accept_def)

lemma single_ai_twilio: "single_ai s \<Longrightarrow> single_ai (s\<lparr>twilioWs := w\<rparr>)"
  by (simp add: single_ai_def)

lemma single_ai_caught_tsend: "single_ai s \<Longrightarrow> single_ai (caught s (twilio_send s m))"
  by (auto simp: caught_def twilio_send_def single_ai_def split: option.splits)

lemma single_ai_esend:
  "single_ai s \<Longrightarrow> eleven_send s m = Some s' \<Longrightarrow> single_ai s'"
  by (auto simp: eleven_send_def single_ai_def ws_send_def
      split: option.splits ready_state.splits)

lemma single_ai_caught_esend: "single_ai s \<Longrightarrow> single_ai (caught s (eleven_send s m))"
  by (cases "eleven_send s m") (auto simp: caught_def intro: single_ai_esend)

lemma single_ai_close_if_open: "single_ai s \<Longrightarrow> single_ai (close_eleven_if_open s)"
  by (auto simp: close_eleven_if_open_def eleven_close_def eleven_is_open_def single_ai_def
      split: option.splits)

lemma single_ai_on_start:
  "rv = Rev2 \<or> rv = Rev4 \<Longrightarrow> single_ai s \<Longrightarrow> single_ai (on_start rv e s msg)"
  by (auto simp: on_start_def Let_def single_ai_def split: option.splits)

lemma single_ai_on_media:
  "rv = Rev2 \<or> rv = Rev4 \<Longrightarrow> single_ai s \<Longrightarrow> single_ai (on_media rv e s msg)"
  by (auto simp: on_media_r2_def single_ai_caught_esend split: option.splits)

lemma single_ai_twilio_message:
  "rv = Rev2 \<or> rv = Rev4 \<Longrightarrow> single_ai s \<Longrightarrow> single_ai (twilio_message rv e s fr)"
  by (simp add: twilio_message_def single_ai_on_start single_ai_on_media
      single_ai_close_if_open split: frame.splits option.splits)

lemma single_ai_eleven_message:
  "rv = Rev2 \<or> rv = Rev4 \<Longrightarrow> single_ai s \<Longrightarrow> single_ai (eleven_message rv s fr)"
  by (auto simp: eleven_message_r2_def on_audio_r2_def on_interruption_def on_ping_r2_def
      Let_def single_ai_caught_tsend single_ai_caught_esend split: frame.splits option.splits)

lemma single_ai_on_open:
  assumes "rv = Rev2 \<or> rv = Rev4" and "single_ai s" and "i < length (sockets s)"
    and "readyState (sockets s ! i) = CONNECTING"
  shows "single_ai (eleven_on_open rv e (set_eleven_state s i OPEN))"
  using assms
  by (auto simp: single_ai_def set_eleven_state_def uncaught_def eleven_send_def ws_send_def)

lemma single_ai_step:
  assumes "rv = Rev2 \<or> rv = Rev4" and "single_ai s"
  shows "single_ai (step rv e s ev)"
proof (cases ev)
  case (TwilioMessage fr)
  with assms show ?thesis by (simp add: step_def single_ai_twilio_message)
next
  case TwilioClosing
  with assms(2) show ?thesis by (simp add: step_def single_ai_twilio)
next
  case TwilioClose
  with assms(2) show ?thesis
    by (simp add: step_def twilio_on_close_def single_ai_close_if_open single_ai_twilio)
next
  case TwilioError
  with assms(2) show ?thesis by (simp add: step_def)
next
  case (SignedUrlSettled ok)
  with assms(2) show ?thesis
    by (auto simp: step_def single_ai_def create_eleven_socket_def)
next
  case (ElevenOpen i)
  with assms show ?thesis by (simp add: step_def single_ai_on_open)
next
  case (ElevenMessage i fr)
  with assms show ?thesis by (simp add: step_def single_ai_eleven_message)
next
  case (ElevenClosing i)
  with assms(2) show ?thesis
    by (auto simp: step_def single_ai_def set_eleven_state_def)
next
  case (ElevenClose i)
  with assms(2) show ?thesis
    by (auto simp: step_def single_ai_def set_eleven_state_def eleven_on_close_def)
next
  case (ElevenError i)
  with assms(2) show ?thesis by (simp add: step_def)
qed

lemma single_ai_run:
  "rv = Rev2 \<or> rv = Rev4 \<Longrightarrow> single_ai s \<Longrightarrow> single_ai (run rv e s evs)"
  by (induction evs arbitrary: s) (simp_all add: single_ai_step)

lemma open_socket_is_current:
  assumes "rv = Rev2 \<or> rv = Rev4"
    and "i < length (sockets (run rv e (accept rv e) evs))"
    and "readyState (sockets (run rv e (accept rv e) evs) ! i) = OPEN"
  shows "elevenWs (run rv e (accept rv e) evs) = Some i \<and>
         \<not> crashed (run rv e (accept rv e) evs)"
proof -
  have "single_ai (run rv e (accept rv e) evs)"
    by (rule single_ai_run [OF assms(1) single_ai_accept])
  with assms(2,3) show ?thesis
    by (cases i) (auto simp: single_ai_def)
qed

section \<open>While no AI socket is current\<close>
























section \<open>Base64: decoding an encoding\<close>

lemma b64_table: "\<forall>n \<in> set [0..<64]. unbase64 (b64_char n) = Some n \<and> b64_char n \<noteq> CHR ''=''"
  by code_simp

lemma unbase64_b64_char: "n < 64 \<Longrightarrow> unbase64 (b64_char n) = Some n"
  using b64_table by simp

lemma b64_char_not_pad: "n < 64 \<Longrightarrow> b64_char n \<noteq> CHR ''=''"
  using b64_table by simp

lemma decode_group:
  assumes "n1 < 64" and "n2 < 64" and "n3 < 64" and "n4 < 64"
  shows "base64_decode (b64_char n1 # b64_char n2 # b64_char n3 # b64_char n4 # rest) =
           (n1 * 4 + n2 div 16) # ((n2 mod 16) * 16 + n3 div 4) # ((n3 mod 4) * 64 + n4) #
           base64_decode rest"
  using assms
  by (simp add: base64_decode_def List.map_filter_simps unbase64_b64_char b64_char_not_pad)

lemma decode_tail3:
  assumes "n1 < 64" and "n2 < 64" and "n3 < 64"
  shows "base64_decode [b64_char n1, b64_char n2, b64_char n3, CHR ''=''] =
           [n1 * 4 + n2 div 16, (n2 mod 16) * 16 + n3 div 4]"
  using assms
  by (simp add: base64_decode_def List.map_filter_simps unbase64_b64_char b64_char_not_pad)

lemma decode_tail2:
  assumes "n1 < 64" and "n2 < 64"
  shows "base64_decode [b64_char n1, b64_char n2, CHR ''='', CHR ''=''] = [n1 * 4 + n2 div 16]"
  using assms
  by (simp add: base64_decode_def List.map_filter_simps unbase64_b64_char b64_char_not_pad)

lemma decode_encode:
  "\<forall>b \<in> set bs. b < 256 \<Longrightarrow> base64_decode (base64_encode bs) = bs"
proof (induction bs rule: base64_encode.induct)
  case (1 a b c rest)
  then have a: "a < 256" and b: "b < 256" and c: "c < 256" by simp_all
  have s1: "a div 4 < 64" using a by simp
  have s2: "(a mod 4) * 16 + b div 16 < 64" using b by (simp add: div_less_iff_less_mult)
  have s3: "(b mod 16) * 4 + c div 64 < 64" using c by (simp add: div_less_iff_less_mult)
  have s4: "c mod 64 < 64" by simp
  have r1: "a div 4 * 4 + ((a mod 4) * 16 + b div 16) div 16 = a" using b by simp
  have r2: "(((a mod 4) * 16 + b div 16) mod 16) * 16 + ((b mod 16) * 4 + c div 64) div 4 = b"
    using b c by simp
  have r3: "(((b mod 16) * 4 + c div 64) mod 4) * 64 + c mod 64 = c" using c by simp
  from 1 have ih: "base64_decode (base64_encode rest) = rest" by simp
  show ?case
    by (simp only: base64_encode.simps decode_group [OF s1 s2 s3 s4] r1 r2 r3 ih)
next
  case (2 a b)
  then have a: "a < 256" and b: "b < 256" by simp_all
  have s1: "a div 4 < 64" using a by simp
  have s2: "(a mod 4) * 16 + b div 16 < 64" using b by (simp add: div_less_iff_less_mult)
  have s3: "(b mod 16) * 4 < 64" by arith
  have r1: "a div 4 * 4 + ((a mod 4) * 16 + b div 16) div 16 = a" using b by simp
  have r2: "(((a mod 4) * 16 + b div 16) mod 16) * 16 + ((b mod 16) * 4) div 4 = b"
    using b by simp
  show ?case
    by (simp only: base64_encode.simps decode_tail3 [OF s1 s2 s3] r1 r2)
next
  case (3 a)
  then have a: "a < 256" by simp
  have s1: "a div 4 < 64" using a by simp
  have s2: "(a mod 4) * 16 < 64" by arith
  have r1: "a div 4 * 4 + ((a mod 4) * 16) div 16 = a" by simp
  show ?case
    by (simp only: base64_encode.simps decode_tail2 [OF s1 s2] r1)
next
  case 4
  show ?case by (simp add: base64_decode_def List.map_filter_simps)
qed

lemma reencode_canonical:
  "\<forall>b \<in> set bs. b < 256 \<Longrightarrow> base64_reencode (base64_encode bs) = base64_encode bs"
  by (simp add: base64_reencode_def decode_encode)

section \<open>Caller audio to the AI socket\<close>

lemma media_step:
  assumes "\<not> crashed s" and "readyState (twilioWs s) = OPEN"
    and "elevenWs s = Some j" and "j < length (sockets s)" and "readyState (sockets s ! j) = OPEN"
    and "get_prop msg ''event'' = JStr ''media''"
    and "get_prop (get_prop msg ''media'') ''payload'' = JStr p"
  shows "step rv e s (TwilioMessage (Json msg)) =
           s\<lparr>sockets := (sockets s)[j := (sockets s ! j)\<lparr>sent := sent (sockets s ! j) @
                [user_audio rv p]\<rparr>]\<rparr>"
proof -
  have st: "step rv e s (TwilioMessage (Json msg)) = on_media rv e s msg"
    using assms(1,2,6) by (simp add: step_def twilio_message_media)
  from assms(7) have nn: "\<not> nullish (get_prop msg ''media'')"
    by (cases "get_prop msg ''media''") (simp_all add: nullish_def)
  then have dp: "dot_prop (get_prop msg ''media'') ''payload'' = Some (JStr p)"
    using assms(7) by (simp add: dot_prop_def)
  show ?thesis
    unfolding st using assms(3,5) dp
    by (cases rv)
       (simp_all add: on_media_r1_def on_media_r2_def eleven_is_open_def caught_def
          eleven_send_def ws_send_def stringify_obj_def user_audio_def)
qed

lemma media_run:
  assumes "\<not> crashed s" and "readyState (twilioWs s) = OPEN"
    and "elevenWs s = Some j" and "j < length (sockets s)" and "readyState (sockets s ! j) = OPEN"
    and "list_all2 (\<lambda>msg p. get_prop msg ''event'' = JStr ''media'' \<and>
                       get_prop (get_prop msg ''media'') ''payload'' = JStr p) msgs ps"
  shows "sent (sockets (run rv e s (map (\<lambda>m. TwilioMessage (Json m)) msgs)) ! j) =
           sent (sockets s ! j) @ map (user_audio rv) ps"
  using assms(6,1-5)
proof (induction arbitrary: s rule: list_all2_induct)
  case Nil
  show ?case by simp
next
  case (Cons msg msgs p ps)
  let ?t = "step rv e s (TwilioMessage (Json msg))"
  from Cons.hyps(1) have ev: "get_prop msg ''event'' = JStr ''media''"
    and pl: "get_prop (get_prop msg ''media'') ''payload'' = JStr p" by simp_all
  note t = media_step [OF Cons.prems ev pl, of rv e]
  have "sent (sockets (run rv e ?t (map (\<lambda>m. TwilioMessage (Json m)) msgs)) ! j) =
          sent (sockets ?t ! j) @ map (user_audio rv) ps"
    using Cons.prems by (intro Cons.IH) (simp_all add: t)
  then show ?case using Cons.prems by (simp add: t)
qed

text \<open>
  C1, as the code has it. While the AI socket is open, every sequence of telephony Media
  events puts one message \<^verbatim>\<open>{"user_audio_chunk": ...}\<close> per event on the AI socket, in the
  order received. Rev1 and RevU forward the payload string as it is. Rev2 and Rev4 forward
  \<^verbatim>\<open>Buffer.from(payload, "base64").toString("base64")\<close>: the payload decoded and encoded
  again, which is the payload itself whenever the payload is the padded standard
  encoding of some bytes.
\<close>

theorem media_relayed:
  assumes "\<not> crashed s" and "readyState (twilioWs s) = OPEN"
    and "elevenWs s = Some j" and "j < length (sockets s)" and "readyState (sockets s ! j) = OPEN"
    and "list_all2 (\<lambda>msg p. get_prop msg ''event'' = JStr ''media'' \<and>
                       get_prop (get_prop msg ''media'') ''payload'' = JStr p) msgs ps"
  shows "sent (sockets (run rv e s (map (\<lambda>m. TwilioMessage (Json m)) msgs)) ! j) =
           sent (sockets s ! j) @
           map (\<lambda>p. JObj [(''user_audio_chunk'',
                           JStr (if rv = Rev2 \<or> rv = Rev4 then base64_reencode p else p))]) ps \<and>
         ((\<forall>b \<in> set bs. b < 256) \<longrightarrow>
            base64_reencode (base64_encode bs) = base64_encode bs)"
proof -
  have "user_audio rv =
          (\<lambda>p. JObj [(''user_audio_chunk'',
                      JStr (if rv = Rev2 \<or> rv = Rev4 then base64_reencode p else p))])"
    by (rule ext) (simp add: user_audio_def)
  with media_run [OF assms, of rv e] reencode_canonical [of bs] show ?thesis by simp
qed

text \<open>Two Media events in Rev1, and the encoding \<^verbatim>\<open>AAA=\<close> of two zero bytes.\<close>

theorem media_relayed_witness:
  "sent (sockets (run Rev1 example_env active_call
      [TwilioMessage (media_in ''AAA=''), TwilioMessage (media_in ''BBB='')]) ! 0) =
     [init_msg_r1, JObj [(''user_audio_chunk'', JStr ''AAA='')],
      JObj [(''user_audio_chunk'', JStr ''BBB='')]] \<and>
   base64_reencode (base64_encode [0, 0]) = base64_encode [0, 0]"
  using media_relayed [where s = active_call and j = 0 and rv = Rev1 and e = example_env
      and msgs = "[JObj [(''event'', JStr ''media''), (''media'', JObj [(''payload'', JStr ''AAA='')])],
                   JObj [(''event'', JStr ''media''), (''media'', JObj [(''payload'', JStr ''BBB='')])]]"
      and ps = "[''AAA='', ''BBB='']" and bs = "[0, 0]"]
  by (simp add: active_call_def media_in_def)

text \<open>
  The claim as stated fails in Rev4: the unpadded payload \<^verbatim>\<open>AAA\<close> reaches the AI socket as
  \<^verbatim>\<open>AAA=\<close>.
\<close>

theorem media_reencoded_counterexample:
  "sent (sockets (run Rev4 example_env (accept Rev4 example_env)
      [SignedUrlSettled True, ElevenOpen 0, TwilioMessage (media_in ''AAA'')]) ! 0) =
     [init_msg_r2 example_env, JObj [(''user_audio_chunk'', JStr ''AAA='')]] \<and>
   JObj [(''user_audio_chunk'', JStr ''AAA='')] \<noteq> JObj [(''user_audio_chunk'', JStr ''AAA'')]"
  by code_simp

section \<open>AI audio to the telephony socket\<close>



section \<open>Failure of the AI-side setup\<close>

text \<open>
  C3, as the code has it. When the AI-side setup fails (the API key is missing, or the
  agent id in Rev1, Rev2 and Rev4, or in Rev2 and Rev4 the request for the signed URL
  never succeeds), then whatever events follow, no AI socket is ever created, nothing at
  all is written to the telephony socket (so no PlayAudio and no ClearBuffer), and the
  server never calls \<^verbatim>\<open>close()\<close> on the telephony socket: the socket stays open until the
  telephony side closes it. The code has no session state and no teardown.
\<close>

theorem failed_setup_leaves_call_open:
  assumes "(rv = RevU \<and> \<not> env_truthy (ELEVENLABS_API_KEY e)) \<or>
           (rv = Rev1 \<and>
              (\<not> env_truthy (ELEVENLABS_API_KEY e) \<or> \<not> env_truthy (ELEVENLABS_AGENT_ID e))) \<or>
           ((rv = Rev2 \<or> rv = Rev4) \<and>
              (\<not> env_truthy (ELEVENLABS_API_KEY e) \<or> \<not> env_truthy (ELEVENLABS_AGENT_ID e) \<or>
               SignedUrlSettled True \<notin> set evs))"
  shows "sockets (run rv e (accept rv e) evs) = [] \<and>
         elevenWs (run rv e (accept rv e) evs) = None \<and>
         sent (twilioWs (run rv e (accept rv e) evs)) = [] \<and>
         close_calls (twilioWs (run rv e (accept rv e) evs)) = 0 \<and>
         (TwilioClose \<notin> set evs \<and> TwilioClosing \<notin> set evs \<longrightarrow>
            readyState (twilioWs (run rv e (accept rv e) evs)) = OPEN)"
proof -
  have pend: "\<not> setup_pending (accept rv e) \<or> SignedUrlSettled True \<notin> set evs"
    using assms by (cases rv) (auto simp: accept_def)
  have conn: "\<forall>t. connect_on_start rv e t = t"
    using assms
    by (cases rv) (auto simp: connectElevenLabs_u_def connectElevenLabs_r1_def)
  have "no_ai (run rv e (accept rv e) evs)"
    by (rule run_no_ai [OF no_ai_accept pend]) (simp add: conn)
  moreover have "TwilioClose \<notin> set evs \<and> TwilioClosing \<notin> set evs \<longrightarrow>
                   readyState (twilioWs (run rv e (accept rv e) evs)) = OPEN"
    using run_same_line [of evs "accept rv e" rv e]
    by (auto simp: tw_same_line_def accept_def)
  ultimately show ?thesis by (simp add: no_ai_def)
qed

text \<open>Rev2 without an API key, and Rev2 whose signed-URL request fails, each followed by a call.\<close>

theorem failed_setup_leaves_call_open_witness:
  "sent (twilioWs (run Rev2 env_without_key (accept Rev2 env_without_key)
      [TwilioMessage (start_frame ''MZ1'' ''CA1''), SignedUrlSettled True,
       TwilioMessage (media_in ''AAA=''), TwilioMessage stop_frame])) = [] \<and>
   close_calls (twilioWs (run Rev2 example_env (accept Rev2 example_env)
      [TwilioMessage (start_frame ''MZ1'' ''CA1''), SignedUrlSettled False,
       TwilioMessage (media_in ''AAA=''), TwilioMessage stop_frame])) = 0 \<and>
   readyState (twilioWs (run Rev2 example_env (accept Rev2 example_env)
      [TwilioMessage (start_frame ''MZ1'' ''CA1''), SignedUrlSettled False,
       TwilioMessage (media_in ''AAA=''), TwilioMessage stop_frame])) = OPEN"
  using failed_setup_leaves_call_open [of Rev2 env_without_key
      "[TwilioMessage (start_frame ''MZ1'' ''CA1''), SignedUrlSettled True,
        TwilioMessage (media_in ''AAA=''), TwilioMessage stop_frame]"]
    failed_setup_leaves_call_open [of Rev2 example_env
      "[TwilioMessage (start_frame ''MZ1'' ''CA1''), SignedUrlSettled False,
        TwilioMessage (media_in ''AAA=''), TwilioMessage stop_frame]"]
  by (simp add: env_without_key_def example_env_def env_truthy_def)

text \<open>
  The claim as stated fails: after Start \<^verbatim>\<open>MZ1/CA1\<close> and a failed signed-URL request under Rev2
  the telephony socket is still open and \<^verbatim>\<open>close()\<close> was never called on it.
\<close>

theorem telephony_not_closed_counterexample:
  "readyState (twilioWs (run Rev2 example_env (accept Rev2 example_env)
      [TwilioMessage (start_frame ''MZ1'' ''CA1''), SignedUrlSettled False])) = OPEN \<and>
   close_calls (twilioWs (run Rev2 example_env (accept Rev2 example_env)
      [TwilioMessage (start_frame ''MZ1'' ''CA1''), SignedUrlSettled False])) = 0"
  by code_simp

section \<open>A second Start\<close>

text \<open>
  C4, as the code has it. Every Start event is processed in the same way, whether or not
  one was processed before: \<open>streamSid\<close> and \<open>callSid\<close> are overwritten with the new
  identifiers and the call goes on. Nothing is closed and nothing else changes, except
  that RevU and Rev1 (with credentials) open one more AI socket and make it the current
  one. No revision treats a second Start as a protocol violation.
\<close>

theorem start_overwrites:
  assumes "\<not> crashed s" and "readyState (twilioWs s) = OPEN"
    and "get_prop msg ''event'' = JStr ''start''"
    and "get_prop (get_prop msg ''start'') ''streamSid'' = JStr sid"
    and "get_prop (get_prop msg ''start'') ''callSid'' = JStr cid"
  shows "step rv e s (TwilioMessage (Json msg)) =
           (if (rv = RevU \<and> env_truthy (ELEVENLABS_API_KEY e)) \<or>
               (rv = Rev1 \<and> env_truthy (ELEVENLABS_API_KEY e) \<and> env_truthy (ELEVENLABS_AGENT_ID e))
            then s\<lparr>streamSid := JStr sid, callSid := JStr cid,
                   elevenWs := Some (length (sockets s)), sockets := sockets s @ [new_ws]\<rparr>
            else s\<lparr>streamSid := JStr sid, callSid := JStr cid\<rparr>)"
proof -
  have st: "step rv e s (TwilioMessage (Json msg)) = on_start rv e s msg"
    using assms(1-3) by (simp add: step_def twilio_message_start)
  show ?thesis
    unfolding st using dot_prop_str [OF assms(4)] assms(5)
    by (cases rv)
       (simp_all add: on_start_def Let_def connectElevenLabs_u_def connectElevenLabs_r1_def
          create_eleven_socket_def)
qed

text \<open>A second Start in the running Rev1 call.\<close>

theorem start_overwrites_witness:
  "step Rev1 example_env active_call (TwilioMessage (start_frame ''MZ2'' ''CA2'')) =
     active_call\<lparr>streamSid := JStr ''MZ2'', callSid := JStr ''CA2'', elevenWs := Some 1,
       sockets := sockets active_call @ [new_ws]\<rparr>"
  using start_overwrites [of active_call
      "JObj [(''event'', JStr ''start''),
             (''start'', JObj [(''streamSid'', JStr ''MZ2''), (''callSid'', JStr ''CA2'')])]"
      "''MZ2''" "''CA2''" Rev1 example_env]
  by (simp add: active_call_def start_frame_def example_env_def env_truthy_def)

text \<open>
  The claim as stated fails: under Rev4 two Start events leave the identifiers of the
  second one stored, the telephony socket open, and no \<^verbatim>\<open>close()\<close> call on any socket.
\<close>

theorem second_start_counterexample:
  "streamSid (run Rev4 example_env (accept Rev4 example_env)
      [SignedUrlSettled True, ElevenOpen 0, TwilioMessage (start_frame ''MZ1'' ''CA1''),
       TwilioMessage (start_frame ''MZ2'' ''CA2'')]) = JStr ''MZ2'' \<and>
   callSid (run Rev4 example_env (accept Rev4 example_env)
      [SignedUrlSettled True, ElevenOpen 0, TwilioMessage (start_frame ''MZ1'' ''CA1''),
       TwilioMessage (start_frame ''MZ2'' ''CA2'')]) = JStr ''CA2'' \<and>
   twilioWs (run Rev4 example_env (accept Rev4 example_env)
      [SignedUrlSettled True, ElevenOpen 0, TwilioMessage (start_frame ''MZ1'' ''CA1''),
       TwilioMessage (start_frame ''MZ2'' ''CA2'')]) =
     \<lparr>readyState = OPEN, sent = [], close_calls = 0\<rparr> \<and>
   map readyState (sockets (run Rev4 example_env (accept Rev4 example_env)
      [SignedUrlSettled True, ElevenOpen 0, TwilioMessage (start_frame ''MZ1'' ''CA1''),
       TwilioMessage (start_frame ''MZ2'' ''CA2'')])) = [OPEN] \<and>
   map close_calls (sockets (run Rev4 example_env (accept Rev4 example_env)
      [SignedUrlSettled True, ElevenOpen 0, TwilioMessage (start_frame ''MZ1'' ''CA1''),
       TwilioMessage (start_frame ''MZ2'' ''CA2'')])) = [0]"
  by code_simp

section \<open>Each socket is closed at most once\<close>

lemma list_all_update: "list_all P xs \<Longrightarrow> (i < length xs \<Longrightarrow> P x) \<Longrightarrow> list_all P (xs[i := x])"
  by (cases "i < length xs") (auto simp: list_all_length nth_list_update)

lemma list_all_nth: "list_all P xs \<Longrightarrow> i < length xs \<Longrightarrow> P (xs ! i)"
  by (simp add: list_all_length)

lemma sock_ok_send: "ws_send w m = Some w' \<Longrightarrow> sock_ok w \<Longrightarrow> sock_ok w'"
  by (auto simp: ws_send_def sock_ok_def split: ready_state.splits)

lemma sock_ok_close: "readyState w = OPEN \<Longrightarrow> sock_ok w \<Longrightarrow> sock_ok (ws_close w)"
  by (auto simp: ws_close_def sock_ok_def)

lemma close_inv_upd: "upd s s' \<Longrightarrow> close_inv s \<Longrightarrow> close_inv s'"
proof (induction rule: upd.induct)
  case (u_esend s m s')
  from u_esend.hyps obtain j w where
    w: "ws_send (sockets s ! j) m = Some w" and s': "s' = s\<lparr>sockets := (sockets s)[j := w]\<rparr>"
    by (auto simp: eleven_send_def split: option.splits)
  from u_esend.prems have all: "list_all sock_ok (sockets s)" by (simp add: close_inv_def)
  have "list_all sock_ok ((sockets s)[j := w])"
    by (rule list_all_update [OF all]) (rule sock_ok_send [OF w list_all_nth [OF all]])
  with u_esend.prems s' show ?case by (simp add: close_inv_def)
next
  case (u_eclose s)
  from u_eclose.prems have all: "list_all sock_ok (sockets s)" by (simp add: close_inv_def)
  from u_eclose.hyps obtain j where
    j: "elevenWs s = Some j" and op: "readyState (sockets s ! j) = OPEN"
    by (auto simp: eleven_is_open_def split: option.splits)
  have "list_all sock_ok ((sockets s)[j := ws_close (sockets s ! j)])"
    by (rule list_all_update [OF all]) (rule sock_ok_close [OF op list_all_nth [OF all]])
  with u_eclose.prems j show ?case by (simp add: close_inv_def eleven_close_def)
next
  case (u_tsend s m s')
  then show ?case
    by (auto simp: close_inv_def twilio_send_def ws_send_def split: option.splits ready_state.splits)
next
  case (u_opened i s)
  from u_opened.prems have all: "list_all sock_ok (sockets s)" by (simp add: close_inv_def)
  have "sock_ok (sockets s ! i)" by (rule list_all_nth [OF all u_opened.hyps(1)])
  with u_opened.hyps have "sock_ok ((sockets s ! i)\<lparr>readyState := OPEN\<rparr>)"
    by (simp add: sock_ok_def)
  then have "list_all sock_ok ((sockets s)[i := (sockets s ! i)\<lparr>readyState := OPEN\<rparr>])"
    by (intro list_all_update [OF all])
  with u_opened.prems show ?case by (simp add: close_inv_def set_eleven_state_def)
next
  case (u_closing i s)
  from u_closing.prems have all: "list_all sock_ok (sockets s)" by (simp add: close_inv_def)
  have "sock_ok (sockets s ! i)" by (rule list_all_nth [OF all u_closing.hyps(1)])
  then have "sock_ok ((sockets s ! i)\<lparr>readyState := CLOSING\<rparr>)"
    by (auto simp: sock_ok_def)
  then have "list_all sock_ok ((sockets s)[i := (sockets s ! i)\<lparr>readyState := CLOSING\<rparr>])"
    by (intro list_all_update [OF all])
  with u_closing.prems show ?case by (simp add: close_inv_def set_eleven_state_def)
next
  case (u_closed i s)
  from u_closed.prems have all: "list_all sock_ok (sockets s)" by (simp add: close_inv_def)
  have "sock_ok (sockets s ! i)" by (rule list_all_nth [OF all u_closed.hyps(1)])
  then have "sock_ok ((sockets s ! i)\<lparr>readyState := CLOSED\<rparr>)"
    by (auto simp: sock_ok_def)
  then have "list_all sock_ok ((sockets s)[i := (sockets s ! i)\<lparr>readyState := CLOSED\<rparr>])"
    by (intro list_all_update [OF all])
  with u_closed.prems show ?case by (simp add: close_inv_def set_eleven_state_def)
qed (simp_all add: close_inv_def create_eleven_socket_def new_ws_def sock_ok_def)

lemma close_inv_upds: "upds s s' \<Longrightarrow> close_inv s \<Longrightarrow> close_inv s'"
  by (induction rule: rtranclp_induct) (auto intro: close_inv_upd)

lemma close_inv_accept: "close_inv (accept rv e)"
  by (simp add: close_inv_def accept_def)

text \<open>
  C5. In every revision and for every sequence of events delivered to a session (Stop,
  close of the telephony socket, close of an AI socket, in any order and number),
  \<^verbatim>\<open>close()\<close> is called at most once on the telephony socket and at most once on every
  AI socket of the session. The guard \<^verbatim>\<open>readyState === WebSocket.OPEN\<close> in front of every
  call is what makes a Stop followed by a telephony close harmless.
\<close>

theorem close_at_most_once:
  "close_calls (twilioWs (run rv e (accept rv e) evs)) \<le> 1 \<and>
   (\<forall>i < length (sockets (run rv e (accept rv e) evs)).
      close_calls (sockets (run rv e (accept rv e) evs) ! i) \<le> 1)"
proof -
  have "close_inv (run rv e (accept rv e) evs)"
    by (rule close_inv_upds [OF upds_run close_inv_accept])
  then show ?thesis
    by (auto simp: close_inv_def list_all_length sock_ok_def)
qed

text \<open>Stop and then the close of the telephony socket: one call on the AI socket.\<close>

theorem close_at_most_once_witness:
  "0 < length (sockets (run Rev1 example_env (accept Rev1 example_env)
        [TwilioMessage (start_frame ''MZ1'' ''CA1''), ElevenOpen 0,
         TwilioMessage stop_frame, TwilioClose])) \<and>
   close_calls (sockets (run Rev1 example_env (accept Rev1 example_env)
        [TwilioMessage (start_frame ''MZ1'' ''CA1''), ElevenOpen 0,
         TwilioMessage stop_frame, TwilioClose]) ! 0) \<le> 1"
proof -
  have len: "0 < length (sockets (run Rev1 example_env (accept Rev1 example_env)
        [TwilioMessage (start_frame ''MZ1'' ''CA1''), ElevenOpen 0,
         TwilioMessage stop_frame, TwilioClose]))"
    by code_simp
  show ?thesis
    using len close_at_most_once [of Rev1 example_env
        "[TwilioMessage (start_frame ''MZ1'' ''CA1''), ElevenOpen 0,
          TwilioMessage stop_frame, TwilioClose]"]
    by blast
qed

section \<open>Loss of the AI socket\<close>




section \<open>Interruption\<close>

text \<open>
  C7, as the code has it. An interruption event received while \<open>streamSid\<close> is set and the
  telephony socket is open writes exactly one ClearBuffer command
  \<^verbatim>\<open>{"event":"clear","streamSid":...}\<close> and changes nothing else; received while \<open>streamSid\<close>
  is not set or the telephony socket is not open, it writes nothing. Audio is never
  queued: whatever is written to the telephony socket after the interruption is a
  ClearBuffer command or a PlayAudio command whose payload comes from an AI message
  delivered after the interruption.
\<close>

theorem interruption_clears:
  assumes "\<not> crashed s" and "i < length (sockets s)" and "readyState (sockets s ! i) = OPEN"
    and "get_prop msg ''type'' = JStr ''interruption''"
  shows "(truthy (streamSid s) \<and> readyState (twilioWs s) = OPEN \<longrightarrow>
            step rv e s (ElevenMessage i (Json msg)) =
              s\<lparr>twilioWs := (twilioWs s)\<lparr>sent := sent (twilioWs s) @
                   [JObj [(''event'', JStr ''clear''), (''streamSid'', streamSid s)]]\<rparr>\<rparr>) \<and>
         (\<not> (truthy (streamSid s) \<and> readyState (twilioWs s) = OPEN) \<longrightarrow>
            step rv e s (ElevenMessage i (Json msg)) = s) \<and>
         (\<forall>evs. \<exists>new.
            sent (twilioWs (run rv e (step rv e s (ElevenMessage i (Json msg))) evs)) =
              sent (twilioWs (step rv e s (ElevenMessage i (Json msg)))) @ new \<and>
            (\<forall>f \<in> set new. is_clear_frame f \<or>
               (\<exists>j m. ElevenMessage j (Json m) \<in> set evs \<and> play_audio_of m f)))"
proof -
  have st: "step rv e s (ElevenMessage i (Json msg)) = on_interruption s"
    using assms by (simp add: step_def eleven_message_interruption)
  have a: "truthy (streamSid s) \<and> readyState (twilioWs s) = OPEN \<longrightarrow>
            on_interruption s =
              s\<lparr>twilioWs := (twilioWs s)\<lparr>sent := sent (twilioWs s) @
                   [JObj [(''event'', JStr ''clear''), (''streamSid'', streamSid s)]]\<rparr>\<rparr>"
    by (simp add: on_interruption_def twilio_ready_def caught_def twilio_send_def ws_send_def
        clear_frame_def stringify_obj_def truthy_not_undefined)
  have b: "\<not> (truthy (streamSid s) \<and> readyState (twilioWs s) = OPEN) \<longrightarrow> on_interruption s = s"
    by (simp add: on_interruption_def twilio_ready_def)
  from a b run_twilio_out [of rv e "on_interruption s"] show ?thesis
    unfolding st by blast
qed

text \<open>An interruption in the running call, and one before any Start under Rev4.\<close>

theorem interruption_clears_witness:
  "step Rev1 example_env active_call (ElevenMessage 0 interruption_frame) =
     active_call\<lparr>twilioWs := (twilioWs active_call)\<lparr>sent :=
        [JObj [(''event'', JStr ''clear''), (''streamSid'', JStr ''MZ1'')]]\<rparr>\<rparr> \<and>
   step Rev4 example_env early_ai_call (ElevenMessage 0 interruption_frame) = early_ai_call"
  using interruption_clears [of active_call 0 "JObj [(''type'', JStr ''interruption'')]"
      Rev1 example_env]
    interruption_clears [of early_ai_call 0 "JObj [(''type'', JStr ''interruption'')]"
      Rev4 example_env]
  by (simp add: active_call_def early_ai_call_def interruption_frame_def)

text \<open>
  The claim as stated fails: under Rev4 the AI socket is open before Start, and an
  interruption that arrives then writes no ClearBuffer command.
\<close>

theorem interruption_before_start_counterexample:
  "sent (twilioWs (run Rev4 example_env (accept Rev4 example_env)
      [SignedUrlSettled True, ElevenOpen 0, ElevenMessage 0 interruption_frame])) = []"
  by code_simp

section \<open>Keepalive\<close>

lemmas ping_defs = on_ping_r1_def on_ping_r2_def caught_def eleven_send_def ws_send_def
  stringify_obj_def opt_prop_get Let_def

lemma ping_step:
  assumes "\<not> crashed s" and "elevenWs s = Some i" and "i < length (sockets s)"
    and "readyState (sockets s ! i) = OPEN"
    and "get_prop msg ''type'' = JStr ''ping''"
    and "get_prop (get_prop msg ''ping_event'') ''event_id'' = eid"
  shows "step rv e s (ElevenMessage i (Json msg)) =
     (if truthy eid then
        s\<lparr>sockets := (sockets s)[i := (sockets s ! i)\<lparr>sent := sent (sockets s ! i) @
             [JObj [(''type'', JStr ''pong''), (''event_id'', eid)]]\<rparr>]\<rparr>
      else if rv = RevU \<or> rv = Rev1 then
        s\<lparr>sockets := (sockets s)[i := (sockets s ! i)\<lparr>sent := sent (sockets s ! i) @
             [JObj [(''type'', JStr ''pong'')]]\<rparr>]\<rparr>
      else s)"
proof -
  have st: "step rv e s (ElevenMessage i (Json msg)) = eleven_message rv s (Json msg)"
    using assms(1,3,4) by (simp add: step_def)
  show ?thesis
    unfolding st eleven_message_ping [OF assms(5)]
    using assms(2,4,6) by (cases rv) (auto simp: ping_defs truthy_not_undefined)
qed

lemma ping_step_closing:
  assumes "\<not> crashed s" and "elevenWs s = Some i" and "i < length (sockets s)"
    and "readyState (sockets s ! i) = CLOSING"
    and "get_prop msg ''type'' = JStr ''ping''"
  shows "step rv e s (ElevenMessage i (Json msg)) = s"
proof -
  have st: "step rv e s (ElevenMessage i (Json msg)) = eleven_message rv s (Json msg)"
    using assms(1,3,4) by (simp add: step_def)
  have snd: "caught s (eleven_send s m) = s" for m
    using assms(2,4) by (simp add: caught_def eleven_send_def ws_send_def)
  show ?thesis
    unfolding st eleven_message_ping [OF assms(5)]
    by (cases rv) (simp_all add: on_ping_r1_def on_ping_r2_def Let_def snd)
qed

text \<open>
  C8, as the code has it. Let a ping arrive on the AI socket that \<open>elevenWs\<close> refers to,
  and let \<open>eid\<close> be the parsed value of \<^verbatim>\<open>msg.ping_event?.event_id\<close>.
  While that socket is open and \<open>eid\<close> is truthy (not 0, not the empty string), exactly
  one \<^verbatim>\<open>{"type":"pong","event_id":eid}\<close> with the same id is written to the socket and
  nothing else changes; the pong is written while the ping is handled, so everything
  written to the socket by later events comes after it.
  While the socket is open and \<open>eid\<close> is falsy or missing, RevU and Rev1 write
  \<^verbatim>\<open>{"type":"pong"}\<close> without an id, and Rev2 and Rev4 write nothing.
  While the socket is CLOSING (\<^verbatim>\<open>close()\<close> was called, as after Stop) no revision writes
  a reply. In Rev2 and Rev4 every AI socket that is open in a reachable state is the one
  \<open>elevenWs\<close> refers to, so there a ping with a truthy id on an open socket is always
  answered.
\<close>

theorem ping_answered:
  assumes "\<not> crashed s" and "elevenWs s = Some i" and "i < length (sockets s)"
    and "get_prop msg ''type'' = JStr ''ping''"
    and "get_prop (get_prop msg ''ping_event'') ''event_id'' = eid"
  shows "(readyState (sockets s ! i) = OPEN \<and> truthy eid \<longrightarrow>
            step rv e s (ElevenMessage i (Json msg)) =
              s\<lparr>sockets := (sockets s)[i := (sockets s ! i)\<lparr>sent := sent (sockets s ! i) @
                   [JObj [(''type'', JStr ''pong''), (''event_id'', eid)]]\<rparr>]\<rparr> \<and>
            (\<forall>evs. \<exists>later.
               sent (sockets (run rv e s (ElevenMessage i (Json msg) # evs)) ! i) =
                 sent (sockets s ! i) @ [JObj [(''type'', JStr ''pong''), (''event_id'', eid)]] @ later)) \<and>
         (readyState (sockets s ! i) = OPEN \<and> \<not> truthy eid \<longrightarrow>
            (rv = RevU \<or> rv = Rev1 \<longrightarrow>
               step rv e s (ElevenMessage i (Json msg)) =
                 s\<lparr>sockets := (sockets s)[i := (sockets s ! i)\<lparr>sent := sent (sockets s ! i) @
                      [JObj [(''type'', JStr ''pong'')]]\<rparr>]\<rparr>) \<and>
            (rv = Rev2 \<or> rv = Rev4 \<longrightarrow> step rv e s (ElevenMessage i (Json msg)) = s)) \<and>
         (readyState (sockets s ! i) = CLOSING \<longrightarrow>
            step rv e s (ElevenMessage i (Json msg)) = s) \<and>
         (rv = Rev2 \<or> rv = Rev4 \<longrightarrow>
            (\<forall>evs j. j < length (sockets (run rv e (accept rv e) evs)) \<and>
                     readyState (sockets (run rv e (accept rv e) evs) ! j) = OPEN \<and>
                     truthy eid \<longrightarrow>
               sent (sockets (step rv e (run rv e (accept rv e) evs)
                                (ElevenMessage j (Json msg))) ! j) =
                 sent (sockets (run rv e (accept rv e) evs) ! j) @
                 [JObj [(''type'', JStr ''pong''), (''event_id'', eid)]]))"
proof -
  let ?s' = "step rv e s (ElevenMessage i (Json msg))"
  let ?pong = "JObj [(''type'', JStr ''pong''), (''event_id'', eid)]"
  have yes: "?s' = s\<lparr>sockets := (sockets s)[i := (sockets s ! i)\<lparr>sent := sent (sockets s ! i) @
                   [?pong]\<rparr>]\<rparr> \<and>
            (\<forall>evs. \<exists>later.
               sent (sockets (run rv e s (ElevenMessage i (Json msg) # evs)) ! i) =
                 sent (sockets s ! i) @ [?pong] @ later)"
    if op: "readyState (sockets s ! i) = OPEN" and t: "truthy eid"
  proof -
    note st = ping_step [OF assms(1-3) op assms(4,5), of rv e]
    from st t have eq: "?s' = s\<lparr>sockets := (sockets s)[i := (sockets s ! i)\<lparr>sent :=
                          sent (sockets s ! i) @ [?pong]\<rparr>]\<rparr>"
      by simp
    have "\<exists>later. sent (sockets (run rv e s (ElevenMessage i (Json msg) # evs)) ! i) =
                 sent (sockets s ! i) @ [?pong] @ later" for evs
    proof -
      from eq assms(3) have len: "i < length (sockets ?s')"
        and snt: "sent (sockets ?s' ! i) = sent (sockets s ! i) @ [?pong]"
        by simp_all
      from sent_extends_run [of ?s' rv e evs] len obtain new where
        "sent (sockets (run rv e ?s' evs) ! i) = sent (sockets ?s' ! i) @ new"
        unfolding sent_extends_def by blast
      with snt show ?thesis by simp
    qed
    with eq show ?thesis by blast
  qed
  have no: "(rv = RevU \<or> rv = Rev1 \<longrightarrow>
               ?s' = s\<lparr>sockets := (sockets s)[i := (sockets s ! i)\<lparr>sent := sent (sockets s ! i) @
                      [JObj [(''type'', JStr ''pong'')]]\<rparr>]\<rparr>) \<and>
            (rv = Rev2 \<or> rv = Rev4 \<longrightarrow> ?s' = s)"
    if op: "readyState (sockets s ! i) = OPEN" and t: "\<not> truthy eid"
    using ping_step [OF assms(1-3) op assms(4,5), of rv e] t by (cases rv) auto
  have closing: "?s' = s" if "readyState (sockets s ! i) = CLOSING"
    by (rule ping_step_closing [OF assms(1-3) that assms(4)])
  have reach: "sent (sockets (step rv e (run rv e (accept rv e) evs)
                                (ElevenMessage j (Json msg))) ! j) =
                 sent (sockets (run rv e (accept rv e) evs) ! j) @ [?pong]"
    if r: "rv = Rev2 \<or> rv = Rev4"
      and j: "j < length (sockets (run rv e (accept rv e) evs))"
      and op: "readyState (sockets (run rv e (accept rv e) evs) ! j) = OPEN"
      and t: "truthy eid" for evs j
  proof -
    from open_socket_is_current [OF r j op]
    have cur: "elevenWs (run rv e (accept rv e) evs) = Some j"
      and nc: "\<not> crashed (run rv e (accept rv e) evs)" by simp_all
    from ping_step [OF nc cur j op assms(4,5), of rv e] t j show ?thesis by simp
  qed
  from yes no closing reach show ?thesis by blast
qed

text \<open>
  Ping 7 in the running call; a ping with the falsy id 0 under Rev4; ping 7 after Stop,
  when the AI socket is CLOSING.
\<close>

theorem ping_answered_witness:
  "step Rev1 example_env active_call (ElevenMessage 0 (ping_frame (JNum 7))) =
     active_call\<lparr>sockets :=
        [\<lparr>readyState = OPEN,
          sent = [init_msg_r1, JObj [(''type'', JStr ''pong''), (''event_id'', JNum 7)]],
          close_calls = 0\<rparr>]\<rparr> \<and>
   step Rev4 example_env early_ai_call (ElevenMessage 0 (ping_frame (JNum 0))) = early_ai_call \<and>
   step Rev1 example_env (step Rev1 example_env active_call (TwilioMessage stop_frame))
     (ElevenMessage 0 (ping_frame (JNum 7))) =
   step Rev1 example_env active_call (TwilioMessage stop_frame)"
proof -
  have stop: "step Rev1 example_env active_call (TwilioMessage stop_frame) =
      active_call\<lparr>sockets :=
        [\<lparr>readyState = CLOSING, sent = [init_msg_r1], close_calls = 1\<rparr>]\<rparr>"
    by code_simp
  have h1: "\<not> crashed active_call" "elevenWs active_call = Some 0"
    "0 < length (sockets active_call)"
    by (simp_all add: active_call_def)
  have h2: "\<not> crashed early_ai_call" "elevenWs early_ai_call = Some 0"
    "0 < length (sockets early_ai_call)"
    by (simp_all add: early_ai_call_def)
  have h3: "\<not> crashed (step Rev1 example_env active_call (TwilioMessage stop_frame))"
    "elevenWs (step Rev1 example_env active_call (TwilioMessage stop_frame)) = Some 0"
    "0 < length (sockets (step Rev1 example_env active_call (TwilioMessage stop_frame)))"
    unfolding stop by (simp_all add: active_call_def)
  have m7: "get_prop (JObj [(''type'', JStr ''ping''),
                (''ping_event'', JObj [(''event_id'', JNum 7)])]) ''type'' = JStr ''ping''"
    "get_prop (get_prop (JObj [(''type'', JStr ''ping''),
                (''ping_event'', JObj [(''event_id'', JNum 7)])]) ''ping_event'') ''event_id'' = JNum 7"
    by simp_all
  have m0: "get_prop (JObj [(''type'', JStr ''ping''),
                (''ping_event'', JObj [(''event_id'', JNum 0)])]) ''type'' = JStr ''ping''"
    "get_prop (get_prop (JObj [(''type'', JStr ''ping''),
                (''ping_event'', JObj [(''event_id'', JNum 0)])]) ''ping_event'') ''event_id'' = JNum 0"
    by simp_all
  have op1: "readyState (sockets active_call ! 0) = OPEN \<and> truthy (JNum 7)"
    by (simp add: active_call_def)
  have op2: "readyState (sockets early_ai_call ! 0) = OPEN \<and> \<not> truthy (JNum 0)"
    by (simp add: early_ai_call_def)
  have cl3: "readyState (sockets (step Rev1 example_env active_call (TwilioMessage stop_frame)) ! 0)
               = CLOSING"
    unfolding stop by (simp add: active_call_def)
  from ping_answered [OF h1 m7, of Rev1 example_env] op1
  have a: "step Rev1 example_env active_call (ElevenMessage 0 (ping_frame (JNum 7))) =
      active_call\<lparr>sockets := (sockets active_call)[0 := (sockets active_call ! 0)\<lparr>sent :=
         sent (sockets active_call ! 0) @
         [JObj [(''type'', JStr ''pong''), (''event_id'', JNum 7)]]\<rparr>]\<rparr>"
    unfolding ping_frame_def by blast
  from ping_answered [OF h2 m0, of Rev4 example_env] op2
  have b: "step Rev4 example_env early_ai_call (ElevenMessage 0 (ping_frame (JNum 0))) =
             early_ai_call"
    unfolding ping_frame_def by blast
  from ping_answered [OF h3 m7, of Rev1 example_env] cl3
  have c: "step Rev1 example_env (step Rev1 example_env active_call (TwilioMessage stop_frame))
             (ElevenMessage 0 (ping_frame (JNum 7))) =
           step Rev1 example_env active_call (TwilioMessage stop_frame)"
    unfolding ping_frame_def by blast
  from a have "step Rev1 example_env active_call (ElevenMessage 0 (ping_frame (JNum 7))) =
     active_call\<lparr>sockets :=
        [\<lparr>readyState = OPEN,
          sent = [init_msg_r1, JObj [(''type'', JStr ''pong''), (''event_id'', JNum 7)]],
          close_calls = 0\<rparr>]\<rparr>"
    by (simp add: active_call_def)
  with b c show ?thesis by blast
qed

text \<open>
  The claim as stated fails: a ping that carries the id 0, received under Rev4 on the open
  AI socket, is not answered; the socket has seen only the initiation message.
\<close>

theorem ping_zero_id_counterexample:
  "sent (sockets (run Rev4 example_env (accept Rev4 example_env)
      [SignedUrlSettled True, ElevenOpen 0, ElevenMessage 0 (ping_frame (JNum 0))]) ! 0) =
     [init_msg_r2 example_env]"
  by code_simp

section \<open>When the AI connection is made\<close>

text \<open>
  C9, as the code has it. In RevU and Rev1 no AI socket exists as long as no Start event
  was delivered: the connection is made by \<^verbatim>\<open>case "start"\<close>, and with credentials a first
  Start event does make it. In Rev2 and Rev4 the connection
  is started when the telephony socket is accepted: once the signed URL has arrived the
  AI socket exists, although no Start was processed and \<open>streamSid\<close> is still null.
\<close>

theorem ai_connection_versus_start:
  "((rv = RevU \<or> rv = Rev1) \<and>
      (\<forall>msg. TwilioMessage (Json msg) \<in> set evs \<longrightarrow> get_prop msg ''event'' \<noteq> JStr ''start'') \<longrightarrow>
      sockets (run rv e (accept rv e) evs) = [] \<and> elevenWs (run rv e (accept rv e) evs) = None) \<and>
   ((rv = Rev2 \<or> rv = Rev4) \<and>
      env_truthy (ELEVENLABS_API_KEY e) \<and> env_truthy (ELEVENLABS_AGENT_ID e) \<longrightarrow>
      sockets (run rv e (accept rv e) [SignedUrlSettled True]) = [new_ws] \<and>
      elevenWs (run rv e (accept rv e) [SignedUrlSettled True]) = Some 0 \<and>
      streamSid (run rv e (accept rv e) [SignedUrlSettled True]) = JNull) \<and>
   ((rv = RevU \<and> env_truthy (ELEVENLABS_API_KEY e)) \<or>
    (rv = Rev1 \<and> env_truthy (ELEVENLABS_API_KEY e) \<and> env_truthy (ELEVENLABS_AGENT_ID e)) \<longrightarrow>
      sockets (run rv e (accept rv e) [TwilioMessage (start_frame sid cid)]) = [new_ws] \<and>
      elevenWs (run rv e (accept rv e) [TwilioMessage (start_frame sid cid)]) = Some 0)"
proof (intro conjI impI)
  assume h: "(rv = RevU \<or> rv = Rev1) \<and>
      (\<forall>msg. TwilioMessage (Json msg) \<in> set evs \<longrightarrow> get_prop msg ''event'' \<noteq> JStr ''start'')"
  then have pend: "\<not> setup_pending (accept rv e) \<or> SignedUrlSettled True \<notin> set evs"
    by (auto simp: accept_def)
  have "no_ai (run rv e (accept rv e) evs)"
    by (rule run_no_ai [OF no_ai_accept pend]) (use h in blast)
  then show "sockets (run rv e (accept rv e) evs) = []"
    and "elevenWs (run rv e (accept rv e) evs) = None"
    by (simp_all add: no_ai_def)
next
  assume h: "(rv = Rev2 \<or> rv = Rev4) \<and>
      env_truthy (ELEVENLABS_API_KEY e) \<and> env_truthy (ELEVENLABS_AGENT_ID e)"
  then show "sockets (run rv e (accept rv e) [SignedUrlSettled True]) = [new_ws]"
    and "elevenWs (run rv e (accept rv e) [SignedUrlSettled True]) = Some 0"
    and "streamSid (run rv e (accept rv e) [SignedUrlSettled True]) = JNull"
    by (auto simp: step_def accept_def create_eleven_socket_def)
next
  assume h: "(rv = RevU \<and> env_truthy (ELEVENLABS_API_KEY e)) \<or>
    (rv = Rev1 \<and> env_truthy (ELEVENLABS_API_KEY e) \<and> env_truthy (ELEVENLABS_AGENT_ID e))"
  have "step rv e (accept rv e) (TwilioMessage (start_frame sid cid)) =
          (accept rv e)\<lparr>streamSid := JStr sid, callSid := JStr cid,
             elevenWs := Some 0, sockets := [new_ws]\<rparr>"
    using h
    by (auto simp: step_def accept_def start_frame_def twilio_message_def dot_prop_def
        nullish_def on_start_def Let_def connectElevenLabs_u_def connectElevenLabs_r1_def
        create_eleven_socket_def)
  then show "sockets (run rv e (accept rv e) [TwilioMessage (start_frame sid cid)]) = [new_ws]"
    and "elevenWs (run rv e (accept rv e) [TwilioMessage (start_frame sid cid)]) = Some 0"
    by simp_all
qed

text \<open>Rev1 with Media and Stop but no Start; Rev4 with nothing but the signed URL; Rev1 with a Start.\<close>

theorem ai_connection_versus_start_witness:
  "sockets (run Rev1 example_env (accept Rev1 example_env)
      [TwilioMessage (media_in ''AAA=''), TwilioMessage stop_frame, TwilioClose]) = [] \<and>
   sockets (run Rev4 example_env (accept Rev4 example_env) [SignedUrlSettled True]) = [new_ws] \<and>
   sockets (run Rev1 example_env (accept Rev1 example_env)
      [TwilioMessage (start_frame ''MZ1'' ''CA1'')]) = [new_ws]"
  using ai_connection_versus_start [of Rev1
      "[TwilioMessage (media_in ''AAA=''), TwilioMessage stop_frame, TwilioClose]" example_env
      "''MZ1''" "''CA1''"]
    ai_connection_versus_start [of Rev4 "[]" example_env "''MZ1''" "''CA1''"]
  by (simp add: media_in_def stop_frame_def example_env_def env_truthy_def)

text \<open>
  The claim as stated fails: under Rev4 an AI socket exists and opens before any Start
  event, while \<open>streamSid\<close> is null.
\<close>

theorem ai_before_start_counterexample:
  "map readyState (sockets (run Rev4 example_env (accept Rev4 example_env)
      [SignedUrlSettled True, ElevenOpen 0])) = [OPEN] \<and>
   streamSid (run Rev4 example_env (accept Rev4 example_env)
      [SignedUrlSettled True, ElevenOpen 0]) = JNull"
  by code_simp

section \<open>Which payload of an audio event is used\<close>

text \<open>
  C10, as the code has it. For an audio event received while \<open>streamSid\<close> is set and the
  telephony socket is open, with \<open>chunk\<close> the value of \<^verbatim>\<open>audio.chunk\<close>, \<open>alt\<close> the value of
  \<^verbatim>\<open>audio_event.audio_base_64\<close> and \<open>whole\<close> the value of \<^verbatim>\<open>audio\<close>: the payload is \<open>chunk\<close>
  when \<open>chunk\<close> is truthy and otherwise \<open>alt\<close>; Rev1 falls back to \<open>whole\<close> when \<open>alt\<close> is
  not truthy either. An empty chunk is not truthy and falls through. Rev1 writes the
  selected payload only when it is a non-empty string. RevU, Rev2 and Rev4 write it
  whenever it is truthy, so also a number or an object; they write nothing only when
  both \<open>chunk\<close> and \<open>alt\<close> are falsy.
\<close>

theorem audio_payload_selection:
  assumes "\<not> crashed s" and "i < length (sockets s)" and "readyState (sockets s ! i) = OPEN"
    and "get_prop msg ''type'' = JStr ''audio''"
    and "truthy (streamSid s)" and "readyState (twilioWs s) = OPEN"
    and "get_prop (get_prop msg ''audio'') ''chunk'' = chunk"
    and "get_prop (get_prop msg ''audio_event'') ''audio_base_64'' = alt"
    and "get_prop msg ''audio'' = whole"
  shows "(rv \<noteq> Rev1 \<longrightarrow>
            step rv e s (ElevenMessage i (Json msg)) =
              (if truthy chunk then play_audio s chunk
               else if truthy alt then play_audio s alt
               else s)) \<and>
         (rv = Rev1 \<longrightarrow>
            step rv e s (ElevenMessage i (Json msg)) =
              (if truthy chunk then (if is_nonempty_string chunk then play_audio s chunk else s)
               else if truthy alt then (if is_nonempty_string alt then play_audio s alt else s)
               else if is_nonempty_string whole then play_audio s whole
               else s))"
proof -
  have st: "step rv e s (ElevenMessage i (Json msg)) = eleven_message rv s (Json msg)"
    using assms(1-3) by (simp add: step_def)
  have r2: "on_audio_r2 s msg =
              (if truthy chunk then play_audio s chunk
               else if truthy alt then play_audio s alt
               else s)"
    using assms(7,8)
    by (simp add: on_audio_r2_ready [OF assms(5,6)] audio_payload_r2_eq)
  have r1: "on_audio_r1 s msg =
              (if truthy chunk then (if is_nonempty_string chunk then play_audio s chunk else s)
               else if truthy alt then (if is_nonempty_string alt then play_audio s alt else s)
               else if is_nonempty_string whole then play_audio s whole
               else s)"
    using assms(7,8,9)
    by (simp add: on_audio_r1_ready [OF assms(5,6)] audio_payload_r1_eq)
  show ?thesis
    unfolding st eleven_message_audio [OF assms(4)]
    by (cases rv) (simp_all add: r1 r2)
qed

text \<open>
  An empty chunk with an alternate payload under Rev2, and an \<^verbatim>\<open>audio\<close> field that is itself
  a string under Rev1.
\<close>

theorem audio_payload_selection_witness:
  "step Rev2 example_env active_call
     (ElevenMessage 0 (Json (JObj [(''type'', JStr ''audio''),
          (''audio'', JObj [(''chunk'', JStr [])]),
          (''audio_event'', JObj [(''audio_base_64'', JStr ''CCC='')])]))) =
     play_audio active_call (JStr ''CCC='') \<and>
   step Rev1 example_env active_call
     (ElevenMessage 0 (Json (JObj [(''type'', JStr ''audio''), (''audio'', JStr ''DDD='')]))) =
     play_audio active_call (JStr ''DDD='')"
  using audio_payload_selection [of active_call 0
      "JObj [(''type'', JStr ''audio''), (''audio'', JObj [(''chunk'', JStr [])]),
             (''audio_event'', JObj [(''audio_base_64'', JStr ''CCC='')])]"
      "JStr []" "JStr ''CCC=''" "JObj [(''chunk'', JStr [])]" Rev2 example_env]
    audio_payload_selection [of active_call 0
      "JObj [(''type'', JStr ''audio''), (''audio'', JStr ''DDD='')]"
      JUndefined JUndefined "JStr ''DDD=''" Rev1 example_env]
  by (simp add: active_call_def is_nonempty_string_def)

text \<open>
  The claim as stated fails: under Rev2 a chunk that is not a string, the number 5, is
  written to the telephony socket.
\<close>

theorem non_string_payload_counterexample:
  "sent (twilioWs (run Rev2 example_env (accept Rev2 example_env)
      [SignedUrlSettled True, ElevenOpen 0, TwilioMessage (start_frame ''MZ1'' ''CA1''),
       ElevenMessage 0 (audio_frame (JNum 5))])) =
     [JObj [(''event'', JStr ''media''), (''streamSid'', JStr ''MZ1''),
            (''media'', JObj [(''payload'', JNum 5)])]]"
  by code_simp

end
